theory Spec2Isabelle
  imports Complex_Main "HOL-Library.Word" "HOL-Library.Signed_Division"
begin

unbundle bit_operations_syntax

section \<open>NoiseLake: the per-tick noise, clock and filter chain\<close>

text \<open>
  The applet of \<^verbatim>\<open>software/o_c_REV/HEM_NoiseLake.ino\<close>: a phase clock, a noise
  source with three modes, and one state-variable filter per channel. Machine integers
  are words of the declared width (\<^verbatim>\<open>uint64_t\<close> as \<^typ>\<open>64 word\<close>, \<^verbatim>\<open>int16_t\<close> as
  \<^typ>\<open>16 word\<close> read through \<^const>\<open>sint\<close>); arithmetic that C++ performs in \<^verbatim>\<open>int\<close>
  after integer promotion is done on \<^typ>\<open>int\<close>, with the narrowing store written as
  \<^const>\<open>word_of_int\<close>. The division of C++ truncates towards zero: \<open>sdiv\<close> and \<open>smod\<close>.
\<close>

subsection \<open>Constants\<close>

definition BNC_MAX_PARAM :: int where "BNC_MAX_PARAM = 63"

definition NOISE_MODE_WHITE :: "8 word" where "NOISE_MODE_WHITE = 0"
definition NOISE_MODE_BITFLIP :: "8 word" where "NOISE_MODE_BITFLIP = 1"
definition NOISE_MODE_CRACKLE :: "8 word" where "NOISE_MODE_CRACKLE = 2"
definition NOISE_VALUE_MAX :: int where "NOISE_VALUE_MAX = 2047"

definition FILTER_MODE_OFF :: "8 word" where "FILTER_MODE_OFF = 0"
definition FILTER_MODE_LP :: "8 word" where "FILTER_MODE_LP = 1"
definition FILTER_MODE_BP :: "8 word" where "FILTER_MODE_BP = 2"
definition FILTER_MODE_HP :: "8 word" where "FILTER_MODE_HP = 3"
definition FILTER_MODE_NOTCH :: "8 word" where "FILTER_MODE_NOTCH = 4"

definition FSAMPLE_CHZ :: "64 word" where "FSAMPLE_CHZ = 1666667"
definition CLK_PHI_MAX :: "64 word" where "CLK_PHI_MAX = 0xffff"

definition FREQ_SCALE :: "16 word list" where
  "FREQ_SCALE =
    [   50,    55,    60,    66,    72,    79,    87,    95,   105,
       115,   126,   138,   151,   166,   182,   199,   219,   240,
       263,   288,   316,   347,   380,   417,   457,   501,   550,
       603,   661,   725,   795,   872,   956,  1048,  1150,  1261,
      1382,  1516,  1662,  1823,  1999,  2192,  2404,  2636,  2891,
      3170,  3476,  3812,  4180,  4584,  5026,  5512,  6044,  6628,
      7269,  7971,  8741,  9585, 10511, 11526, 12639, 13860, 15199,
     16667]"

subsection \<open>State, collaborators and per-tick inputs\<close>

text \<open>\<^verbatim>\<open>struct FilterState { uint8_t f; uint8_t q; uint8_t mode; }\<close>\<close>

record FilterState =
  fs_f :: "8 word"
  fs_q :: "8 word"
  fs_mode :: "8 word"

text \<open>
  The members of \<^verbatim>\<open>class NoiseLake\<close>. The two-element arrays \<^verbatim>\<open>state_filter[2]\<close>,
  \<^verbatim>\<open>filter[2]\<close> and \<^verbatim>\<open>_noise[2]\<close> are functions of the channel index; \<^verbatim>\<open>_noise\<close> is the
  field \<open>ch_noise\<close> (an identifier cannot start with an underscore here). The type
  \<^typ>\<open>'f\<close> is the state of one \<^verbatim>\<open>TDSP::FilterStateVariable\<close>.
\<close>

record 'f NoiseLake =
  cursor :: int
  noise_mode :: "8 word"
  state_filter :: "nat \<Rightarrow> FilterState"
  filter_sv :: "nat \<Rightarrow> 'f"
  state_clock :: "8 word"
  clk_phi :: "64 word"
  clk_dphi :: "64 word"
  noise :: "16 word"
  ch_noise :: "nat \<Rightarrow> 16 word"

text \<open>
  Code the applet calls and \<^verbatim>\<open>src/\<close> does not hold, taken as parameters:
  \<^verbatim>\<open>TDSP::FilterStateVariable\<close> of \<^verbatim>\<open>tiny_dsp.h\<close> (\<^verbatim>\<open>feed\<close> and the four taps) and
  \<^verbatim>\<open>Proportion\<close> of the applet base class.
\<close>

record 'f collaborators =
  Proportion :: "int \<Rightarrow> int \<Rightarrow> int \<Rightarrow> int"
  feed :: "'f \<Rightarrow> int \<Rightarrow> int \<Rightarrow> int \<Rightarrow> 'f"
  get_lp :: "'f \<Rightarrow> int"
  get_bp :: "'f \<Rightarrow> int"
  get_hp :: "'f \<Rightarrow> int"
  get_no :: "'f \<Rightarrow> int"

text \<open>
  What one tick reads from outside: the gate of each channel and the values the
  calls of \<^verbatim>\<open>random\<close> return. \<^verbatim>\<open>random(lo, hi)\<close> returns a value in \<open>[lo, hi)\<close> and
  \<^verbatim>\<open>random(hi)\<close> one in \<open>[0, hi)\<close>; \<open>draws_ok\<close> states these ranges.
\<close>

record tick_input =
  Gate :: "nat \<Rightarrow> bool"
  rnd_eta :: int
  rnd_sign :: int
  rnd_bit :: int
  rnd_white :: int

definition draws_ok :: "tick_input \<Rightarrow> bool" where
  "draws_ok inp =
    (0 \<le> rnd_eta inp \<and> rnd_eta inp < uint CLK_PHI_MAX \<and>
     0 \<le> rnd_sign inp \<and> rnd_sign inp < 2 \<and>
     0 \<le> rnd_bit inp \<and> rnd_bit inp < 12 \<and>
     - NOISE_VALUE_MAX \<le> rnd_white inp \<and> rnd_white inp < NOISE_VALUE_MAX)"

text \<open>
  What one tick does to the outside, in program order: the calls of
  \<^verbatim>\<open>filter[ch].feed(x, freq, q)\<close> and of \<^verbatim>\<open>Out(ch, v)\<close>.
\<close>

datatype event = Feed nat int int int | Out nat int

text \<open>
  Undefined behaviour of the C++ is an error value: an integer division by zero, a
  read of a local that has not been written (\<^verbatim>\<open>signal[ch]\<close> when no \<^verbatim>\<open>case\<close> of the
  \<^verbatim>\<open>switch\<close> applies, \<^verbatim>\<open>_noise[ch]\<close> where it is a local), and a read outside a table.
\<close>

datatype error = DivisionByZero | UninitialisedRead | OutOfBounds

subsection \<open>The clock\<close>

text \<open>\<^verbatim>\<open>clk_dphi = (cfreq*CLK_PHI_MAX)/FSAMPLE_CHZ\<close>, all in \<^verbatim>\<open>uint64_t\<close>.\<close>

definition CLKSetCFreq :: "64 word \<Rightarrow> 64 word" where
  "CLKSetCFreq cfreq = (cfreq * CLK_PHI_MAX) div FSAMPLE_CHZ"

text \<open>
  \<^verbatim>\<open>clk_phi += clk_dphi; if (clk_phi >= CLK_PHI_MAX) { clk_phi -= CLK_PHI_MAX; ... }\<close>:
  the new phase and whether the phase wrapped.
\<close>

definition clk_advance :: "64 word \<Rightarrow> 64 word \<Rightarrow> 64 word \<times> bool" where
  "clk_advance phi dphi =
    (let p = phi + dphi in
     if p \<ge> CLK_PHI_MAX then (p - CLK_PHI_MAX, True) else (p, False))"

text \<open>\<open>n\<close> advances in a row: the phase reached and the number of wraps.\<close>

fun clk_run :: "nat \<Rightarrow> 64 word \<Rightarrow> 64 word \<Rightarrow> 64 word \<times> nat" where
  "clk_run 0 phi dphi = (phi, 0)"
| "clk_run (Suc n) phi dphi =
    (case clk_advance phi dphi of
       (p, wrapped) \<Rightarrow>
         (case clk_run n p dphi of (p', w) \<Rightarrow> (p', w + (if wrapped then 1 else 0))))"

subsection \<open>The parameter mappers\<close>

text \<open>\<^verbatim>\<open>return Proportion(p, BNC_MAX_PARAM, 969) + 30;\<close> as \<^verbatim>\<open>uint16_t\<close>.\<close>

definition Parameter2Frequency :: "'f collaborators \<Rightarrow> 8 word \<Rightarrow> 16 word" where
  "Parameter2Frequency env p = word_of_int (Proportion env (uint p) BNC_MAX_PARAM 969 + 30)"

text \<open>
  \<^verbatim>\<open>p = p < 64 ? p : 63; return FREQ_SCALE[p];\<close> with \<open>p\<close> a \<^verbatim>\<open>uint8_t\<close>. A read
  outside the table has no value.
\<close>

definition table_at :: "'a list \<Rightarrow> nat \<Rightarrow> 'a option" where
  "table_at xs i = (if i < length xs then Some (xs ! i) else None)"

definition Parameter2Clk :: "8 word \<Rightarrow> 16 word option" where
  "Parameter2Clk p = table_at FREQ_SCALE (unat (if p < 64 then p else 63))"

subsection \<open>The noise source\<close>

text \<open>
  Crackle: \<^verbatim>\<open>uint16_t eta = random(0, CLK_PHI_MAX);\<close> and, when \<^verbatim>\<open>eta < clk_dphi\<close>,
  \<^verbatim>\<open>int16_t a = clk_dphi / eta; a = a > 8 ? 8 : a; a *= random(2) > 0 ? 1 : -1;
  noise = a*NOISE_VALUE_MAX/8;\<close> otherwise \<^verbatim>\<open>noise = (noise*3)/4;\<close>. The comparison and
  the quotient are in \<^verbatim>\<open>uint64_t\<close>; the store to \<open>a\<close> keeps the low 16 bits.
\<close>

definition crackle :: "tick_input \<Rightarrow> 64 word \<Rightarrow> 16 word \<Rightarrow> error + 16 word" where
  "crackle inp dphi n =
    (let eta = (word_of_int (rnd_eta inp) :: 16 word) in
     if (ucast eta :: 64 word) < dphi then
       if eta = 0 then Inl DivisionByZero
       else
         let a = (ucast (dphi div ucast eta) :: 16 word);
             a = (if sint a > 8 then 8 else a);
             a = (word_of_int (sint a * (if rnd_sign inp > 0 then 1 else - 1)) :: 16 word)
         in Inr (word_of_int ((sint a * NOISE_VALUE_MAX) sdiv 8))
     else Inr (word_of_int ((sint n * 3) sdiv 4)))"

text \<open>
  BitFlip: \<^verbatim>\<open>noise += NOISE_VALUE_MAX; noise ^= (1 << random(0, 12));
  noise -= NOISE_VALUE_MAX;\<close> on an \<^verbatim>\<open>int16_t\<close>.
\<close>

definition bitflip :: "tick_input \<Rightarrow> 16 word \<Rightarrow> 16 word" where
  "bitflip inp n =
    (let n = n + word_of_int NOISE_VALUE_MAX;
         n = n XOR word_of_int (push_bit (nat (rnd_bit inp)) 1)
     in n - word_of_int NOISE_VALUE_MAX)"

text \<open>White: \<^verbatim>\<open>noise = random(-NOISE_VALUE_MAX, NOISE_VALUE_MAX);\<close>\<close>

definition white :: "tick_input \<Rightarrow> 16 word" where
  "white inp = word_of_int (rnd_white inp)"

text \<open>The first half of \<^verbatim>\<open>Controller\<close>: noise and clock.\<close>

definition noise_step :: "tick_input \<Rightarrow> 'f NoiseLake \<Rightarrow> error + 'f NoiseLake" where
  "noise_step inp s =
    (if noise_mode s = NOISE_MODE_CRACKLE then
       (case crackle inp (clk_dphi s) (noise s) of
          Inl e \<Rightarrow> Inl e
        | Inr n \<Rightarrow> Inr (s\<lparr>noise := n\<rparr>))
     else
       (case clk_advance (clk_phi s) (clk_dphi s) of
          (p, wrapped) \<Rightarrow>
            if wrapped then
              if noise_mode s = NOISE_MODE_BITFLIP
              then Inr (s\<lparr>clk_phi := p, noise := bitflip inp (noise s)\<rparr>)
              else Inr (s\<lparr>clk_phi := p, noise := white inp\<rparr>)
            else Inr (s\<lparr>clk_phi := p\<rparr>)))"

subsection \<open>The channels\<close>

text \<open>
  The \<^verbatim>\<open>switch (state_filter[ch].mode)\<close> that fills the local \<^verbatim>\<open>int16_t signal[ch]\<close>.
  It has no \<^verbatim>\<open>default\<close>: for another mode the local is read unwritten.
\<close>

definition select_tap :: "'f collaborators \<Rightarrow> 8 word \<Rightarrow> 16 word \<Rightarrow> 'f \<Rightarrow> error + 16 word" where
  "select_tap env m x flt =
    (if m = FILTER_MODE_OFF then Inr x
     else if m = FILTER_MODE_LP then Inr (word_of_int (get_lp env flt))
     else if m = FILTER_MODE_BP then Inr (word_of_int (get_bp env flt))
     else if m = FILTER_MODE_HP then Inr (word_of_int (get_hp env flt))
     else if m = FILTER_MODE_NOTCH then Inr (word_of_int (get_no env flt))
     else Inl UninitialisedRead)"

text \<open>
  The body of \<^verbatim>\<open>ForEachChannel(ch)\<close>: hold or take the noise, map the parameters,
  feed the filter, select the tap, emit half of it.
\<close>

definition channel_step ::
  "'f collaborators \<Rightarrow> tick_input \<Rightarrow> nat \<Rightarrow> 'f NoiseLake \<Rightarrow> event list \<Rightarrow>
   error + ('f NoiseLake \<times> event list)" where
  "channel_step env inp ch s evs =
    (let x = (if \<not> Gate inp ch then noise s else ch_noise s ch);
         freq = uint (Parameter2Frequency env (fs_f (state_filter s ch))) * 100;
         q = Proportion env (uint (fs_q (state_filter s ch))) BNC_MAX_PARAM 2020;
         flt = feed env (filter_sv s ch) (sint x) freq q;
         s' = s\<lparr>ch_noise := (ch_noise s)(ch := x), filter_sv := (filter_sv s)(ch := flt)\<rparr>
     in case select_tap env (fs_mode (state_filter s ch)) x flt of
          Inl e \<Rightarrow> Inl e
        | Inr signal \<Rightarrow> Inr (s', evs @ [Feed ch (sint x) freq q, Out ch (sint signal sdiv 2)]))"

text \<open>\<^verbatim>\<open>void Controller()\<close>: one tick. \<^verbatim>\<open>ForEachChannel\<close> runs channel 0, then channel 1.\<close>

definition Controller ::
  "'f collaborators \<Rightarrow> tick_input \<Rightarrow> 'f NoiseLake \<Rightarrow> error + ('f NoiseLake \<times> event list)" where
  "Controller env inp s =
    (case noise_step inp s of
       Inl e \<Rightarrow> Inl e
     | Inr s0 \<Rightarrow>
        (case channel_step env inp 0 s0 [] of
           Inl e \<Rightarrow> Inl e
         | Inr (s1, evs) \<Rightarrow> channel_step env inp 1 s1 evs))"

subsection \<open>Start and the encoder\<close>

text \<open>
  A \<^verbatim>\<open>NoiseLake\<close> before \<^verbatim>\<open>Start\<close>: the instances are objects of static storage, so
  every member without an initialiser is zero; \<^verbatim>\<open>state_clock = 63\<close> and \<^verbatim>\<open>clk_phi = 0\<close>
  are the initialisers of the class. \<open>flt0\<close> is a filter as its constructor leaves it.
\<close>

definition NoiseLake_instance :: "'f \<Rightarrow> 'f NoiseLake" where
  "NoiseLake_instance flt0 =
    \<lparr>cursor = 0, noise_mode = 0,
     state_filter = (\<lambda>ch. \<lparr>fs_f = 0, fs_q = 0, fs_mode = 0\<rparr>),
     filter_sv = (\<lambda>ch. flt0), state_clock = 63, clk_phi = 0, clk_dphi = 0,
     noise = 0, ch_noise = (\<lambda>ch. 0)\<rparr>"

text \<open>
  \<^verbatim>\<open>void Start()\<close>; \<open>r\<close> is what \<^verbatim>\<open>random(0, NOISE_VALUE_MAX)\<close> returns. The loop sets
  \<open>f\<close> and \<open>q\<close> of both channels, then the two modes are set. \<open>set_filter ch upd\<close>
  is an assignment to members of \<^verbatim>\<open>state_filter[ch]\<close>.
\<close>

definition set_filter :: "nat \<Rightarrow> (FilterState \<Rightarrow> FilterState) \<Rightarrow> 'f NoiseLake \<Rightarrow> 'f NoiseLake" where
  "set_filter ch upd s = s\<lparr>state_filter := (state_filter s)(ch := upd (state_filter s ch))\<rparr>"

definition Start :: "int \<Rightarrow> 'f NoiseLake \<Rightarrow> 'f NoiseLake" where
  "Start r s =
    (let s = s\<lparr>noise := word_of_int r\<rparr>;
         s = s\<lparr>noise_mode := NOISE_MODE_BITFLIP\<rparr>;
         s = s\<lparr>clk_dphi := CLKSetCFreq FSAMPLE_CHZ\<rparr>;
         s = set_filter 0 (\<lambda>fs. fs\<lparr>fs_f := 32, fs_q := 32\<rparr>) s;
         s = set_filter 1 (\<lambda>fs. fs\<lparr>fs_f := 32, fs_q := 32\<rparr>) s;
         s = set_filter 0 (\<lambda>fs. fs\<lparr>fs_mode := FILTER_MODE_LP\<rparr>) s;
         s = set_filter 1 (\<lambda>fs. fs\<lparr>fs_mode := FILTER_MODE_BP\<rparr>) s
     in s)"

text \<open>\<^verbatim>\<open>if (++cursor > 8) cursor = 0;\<close>\<close>

definition OnButtonPress :: "'f NoiseLake \<Rightarrow> 'f NoiseLake" where
  "OnButtonPress s = s\<lparr>cursor := (if cursor s + 1 > 8 then 0 else cursor s + 1)\<rparr>"

text \<open>The macro \<^verbatim>\<open>constrain(amt, low, high)\<close> of the Arduino core.\<close>

definition constrain :: "int \<Rightarrow> int \<Rightarrow> int \<Rightarrow> int" where
  "constrain amt low high = (if amt < low then low else if amt > high then high else amt)"

text \<open>
  \<^verbatim>\<open>void OnEncoderMove(int direction)\<close>. Cursor 0 sets the clock from the table, in
  centihertz: \<^verbatim>\<open>CLKSetCFreq(Parameter2Clk(state_clock)*100)\<close>. Cursor 8 and any other
  value change nothing.
\<close>

definition OnEncoderMove :: "int \<Rightarrow> 'f NoiseLake \<Rightarrow> 'f NoiseLake option" where
  "OnEncoderMove direction s =
    (if cursor s = 0 then
       (let c = (word_of_int (constrain (uint (state_clock s) + direction) 0 BNC_MAX_PARAM) :: 8 word)
        in case Parameter2Clk c of
             None \<Rightarrow> None
           | Some hz \<Rightarrow> Some (s\<lparr>state_clock := c, clk_dphi := CLKSetCFreq (word_of_int (uint hz * 100))\<rparr>))
     else if cursor s = 1 then
       Some (s\<lparr>noise_mode := word_of_int (constrain (uint (noise_mode s) + direction) 0 2)\<rparr>)
     else if cursor s = 2 then
       Some (set_filter 0 (\<lambda>fs. fs\<lparr>fs_mode := word_of_int (constrain (uint (fs_mode fs) + direction) 0 4)\<rparr>) s)
     else if cursor s = 3 then
       Some (set_filter 1 (\<lambda>fs. fs\<lparr>fs_mode := word_of_int (constrain (uint (fs_mode fs) + direction) 0 4)\<rparr>) s)
     else if cursor s = 4 then
       Some (set_filter 0 (\<lambda>fs. fs\<lparr>fs_f := word_of_int (constrain (uint (fs_f fs) + direction) 0 BNC_MAX_PARAM)\<rparr>) s)
     else if cursor s = 5 then
       Some (set_filter 1 (\<lambda>fs. fs\<lparr>fs_f := word_of_int (constrain (uint (fs_f fs) + direction) 0 BNC_MAX_PARAM)\<rparr>) s)
     else if cursor s = 6 then
       Some (set_filter 0 (\<lambda>fs. fs\<lparr>fs_q := word_of_int (constrain (uint (fs_q fs) + direction) 0 BNC_MAX_PARAM)\<rparr>) s)
     else if cursor s = 7 then
       Some (set_filter 1 (\<lambda>fs. fs\<lparr>fs_q := word_of_int (constrain (uint (fs_q fs) + direction) 0 BNC_MAX_PARAM)\<rparr>) s)
     else Some s)"

subsection \<open>The modulo wavefolder\<close>

text \<open>
  \<^verbatim>\<open>int16_t WaveFolder(int16_t signal, int16_t limit)\<close>:
  \<^verbatim>\<open>signal += limit; int16_t out = signal%(2*limit); out = out < 0 ? -out : out;
  if (!((signal/(2*limit))%2)) { out = 2*limit - out; } out -= limit; return out;\<close>
  Every operator works on \<^verbatim>\<open>int\<close>; each store to an \<^verbatim>\<open>int16_t\<close> keeps the low 16 bits.
  With \<open>limit = 0\<close> the remainder divides by zero.
\<close>

definition WaveFolder :: "16 word \<Rightarrow> 16 word \<Rightarrow> error + 16 word" where
  "WaveFolder signal limit =
    (if 2 * sint limit = 0 then Inl DivisionByZero
     else
       let signal = (word_of_int (sint signal + sint limit) :: 16 word);
           out = (word_of_int (sint signal smod (2 * sint limit)) :: 16 word);
           out = (if sint out < 0 then word_of_int (- sint out) else out);
           out = (if (sint signal sdiv (2 * sint limit)) smod 2 = 0
                  then word_of_int (2 * sint limit - sint out) else out)
       in Inr (word_of_int (sint out - sint limit)))"

section \<open>The single-filter variant with the interpolated folder\<close>

text \<open>
  The later version of the applet (the second file of \<^verbatim>\<open>src/unnamed/part_000\<close>) has
  one filter, a 112-entry frequency table shared by clock and filter, and the
  interpolated-table folder. Its definitions carry the suffix \<open>_wf\<close> where the name is
  already taken above.
\<close>

definition NL_MAX_PARAM :: int where "NL_MAX_PARAM = 111"

definition CFREQ_SCALE :: "32 word list" where
  "CFREQ_SCALE =
    [    2750,    2914,    3087,    3270,    3465,    3671,    3889,
         4120,    4365,    4625,    4900,    5191,    5500,    5827,
         6174,    6541,    6930,    7342,    7778,    8241,    8731,
         9250,    9800,   10383,   11000,   11654,   12347,   13081,
        13859,   14683,   15556,   16481,   17461,   18500,   19600,
        20765,   22000,   23308,   24694,   26163,   27718,   29366,
        31113,   32963,   34923,   36999,   39200,   41530,   44000,
        46616,   49388,   52325,   55437,   58733,   62225,   65926,
        69846,   73999,   78399,   83061,   88000,   93233,   98777,
       104650,  110873,  117466,  124451,  131851,  139691,  147998,
       156798,  166122,  176000,  186466,  197553,  209300,  221746,
       234932,  248902,  263702,  279383,  295996,  313596,  332244,
       352000,  372931,  395107,  418601,  443492,  469864,  497803,
       527404,  558765,  591991,  627193,  664488,  704000,  745862,
       790213,  837202,  886984,  939727,  995606, 1054808, 1117530,
      1183982, 1254385, 1328975, 1408000, 1491724, 1580427, 1666667]"

definition CFREQ_SCALE_IDX_C7 :: "8 word" where "CFREQ_SCALE_IDX_C7 = 75"

text \<open>\<^verbatim>\<open>p = p > CFREQ_SCALE_IDX_C7 ? CFREQ_SCALE_IDX_C7 : p; return CFREQ_SCALE[p];\<close>\<close>

definition Parameter2Frequency_wf :: "8 word \<Rightarrow> 32 word option" where
  "Parameter2Frequency_wf p =
    table_at CFREQ_SCALE (unat (if p > CFREQ_SCALE_IDX_C7 then CFREQ_SCALE_IDX_C7 else p))"

text \<open>\<^verbatim>\<open>p = p < 112 ? p : 111; return CFREQ_SCALE[p];\<close>\<close>

definition Parameter2Clk_wf :: "8 word \<Rightarrow> 32 word option" where
  "Parameter2Clk_wf p = table_at CFREQ_SCALE (unat (if p < 112 then p else 111))"

text \<open>The fold curve, \<^verbatim>\<open>const int16_t FOLDCURVE[64]\<close>, as the integers it holds.\<close>

definition FOLDCURVE :: "int list" where
  "FOLDCURVE =
    [    0,   406,   796,  1154,  1466,  1720,  1906,  2017,  2047,
      1997,  1867,  1663,  1393,  1068,   700,   305,  -102,  -505,
      -889, -1237, -1536, -1774, -1941, -2032, -2042, -1971, -1822,
     -1601, -1316,  -979,  -604,  -204,   204,   604,   979,  1316,
      1601,  1822,  1971,  2042,  2032,  1941,  1774,  1536,  1237,
       889,   505,   102,  -305,  -610,  -802,  -892,  -894,  -830,
      -719,  -582,  -439,  -305,  -191,  -104,   -46,   -14,    0,
         0]"

definition FOLDCURVE_N :: int where "FOLDCURVE_N = 64"

text \<open>\<^verbatim>\<open>const int16_t dx = 4*(NOISE_VALUE_MAX+1)/FOLDCURVE_N;\<close>\<close>

definition fold_dx :: int where
  "fold_dx = (4 * (NOISE_VALUE_MAX + 1)) sdiv FOLDCURVE_N"

text \<open>
  \<^verbatim>\<open>int16_t InterpolationFolder(int16_t x)\<close>. The bucket \<open>i\<close> is a \<^verbatim>\<open>uint8_t\<close>: the
  store keeps the low 8 bits of the quotient, then \<^verbatim>\<open>i = i < FOLDCURVE_N - 1 ? i :
  FOLDCURVE_N - 2\<close>, so both reads of the table are inside it. The two products and
  their sum are \<^verbatim>\<open>int\<close> values below \<open>2 ^ 28\<close> in magnitude for every \<open>x\<close>; the result
  is stored to an \<^verbatim>\<open>int16_t\<close>.
\<close>

definition fold_bucket :: "int \<Rightarrow> nat" where
  "fold_bucket k =
    (let i = (word_of_int k :: 8 word)
     in nat (if uint i < FOLDCURVE_N - 1 then uint i else FOLDCURVE_N - 2))"

definition InterpolationFolder :: "16 word \<Rightarrow> 16 word" where
  "InterpolationFolder xw =
    (let x = sint xw;
         dx = fold_dx;
         y = (if x \<ge> 0 then
                let i = fold_bucket (x sdiv dx)
                in FOLDCURVE ! i * ((int i + 1) * dx - x) + FOLDCURVE ! (i + 1) * (x - int i * dx)
              else
                let i = fold_bucket ((- 1 * x) sdiv dx)
                in - 1 * FOLDCURVE ! i * ((int i + 1) * dx + x) + FOLDCURVE ! (i + 1) * (x + int i * dx))
     in word_of_int (y sdiv dx))"

subsection \<open>The tick of the single-filter variant\<close>

definition NOISE_MODE_LINEIN :: "8 word" where "NOISE_MODE_LINEIN = 3"

text \<open>
  The members of \<^verbatim>\<open>class NoiseLake\<close> in this variant: one \<^verbatim>\<open>filter\<close>, one
  \<^verbatim>\<open>state_filter\<close>, the folder parameter \<^verbatim>\<open>int16_t state_wavefolder\<close>, and no \<^verbatim>\<open>_noise\<close>.
\<close>

record 'f NoiseLake_wf =
  cursor_wf :: int
  noise_mode_wf :: "8 word"
  filter_wf :: 'f
  state_clock_wf :: "8 word"
  state_filter_wf :: FilterState
  state_wavefolder :: "16 word"
  clk_phi_wf :: "64 word"
  clk_dphi_wf :: "64 word"
  noise_wf :: "16 word"

text \<open>
  The first half of \<^verbatim>\<open>Controller\<close>. Crackle, the clock, BitFlip and White are the lines
  of the two-channel file; the mode LineIn takes
  \<^verbatim>\<open>noise = Proportion(In(0), HEMISPHERE_MAX_CV, NOISE_VALUE_MAX);\<close> where \<open>cv\<close> is what
  \<^verbatim>\<open>In(0)\<close> returns on this tick and \<open>max_cv\<close> the constant \<^verbatim>\<open>HEMISPHERE_MAX_CV\<close> of
  the applet base class, neither under \<^verbatim>\<open>src/\<close>.
\<close>

definition noise_step_wf ::
  "'f collaborators \<Rightarrow> int \<Rightarrow> tick_input \<Rightarrow> int \<Rightarrow> 'f NoiseLake_wf \<Rightarrow> error + 'f NoiseLake_wf" where
  "noise_step_wf env max_cv inp cv s =
    (if noise_mode_wf s = NOISE_MODE_CRACKLE then
       (case crackle inp (clk_dphi_wf s) (noise_wf s) of
          Inl e \<Rightarrow> Inl e
        | Inr n \<Rightarrow> Inr (s\<lparr>noise_wf := n\<rparr>))
     else
       (case clk_advance (clk_phi_wf s) (clk_dphi_wf s) of
          (p, wrapped) \<Rightarrow>
            if wrapped then
              if noise_mode_wf s = NOISE_MODE_BITFLIP
              then Inr (s\<lparr>clk_phi_wf := p, noise_wf := bitflip inp (noise_wf s)\<rparr>)
              else if noise_mode_wf s = NOISE_MODE_LINEIN
              then Inr (s\<lparr>clk_phi_wf := p,
                         noise_wf := word_of_int (Proportion env cv max_cv NOISE_VALUE_MAX)\<rparr>)
              else Inr (s\<lparr>clk_phi_wf := p, noise_wf := white inp\<rparr>)
            else Inr (s\<lparr>clk_phi_wf := p\<rparr>)))"

text \<open>
  \<^verbatim>\<open>signal[1] = 4*InterpolationFolder(Proportion(state_wavefolder, NL_MAX_PARAM/4,
  signal[0]));\<close> The argument of the folder and the product are narrowed to \<^verbatim>\<open>int16_t\<close>.
\<close>

definition folded :: "'f collaborators \<Rightarrow> 16 word \<Rightarrow> 16 word \<Rightarrow> 16 word" where
  "folded env amount signal0 =
    word_of_int (4 * sint (InterpolationFolder
      (word_of_int (Proportion env (sint amount) (NL_MAX_PARAM sdiv 4) (sint signal0)))))"

text \<open>
  \<^verbatim>\<open>void Controller()\<close> of this variant. After the noise, under the comment
  \<^verbatim>\<open>// Freeze on postive gate\<close>, come \<^verbatim>\<open>int32_t freq = Parameter2Frequency(state_filter.f);
  int32_t q = Proportion(state_filter.q, NL_MAX_PARAM, 2020); filter.feed(noise, freq, q);\<close>
  then the \<^verbatim>\<open>switch\<close> on the mode, the folder and
  \<^verbatim>\<open>ForEachChannel(ch) Out(ch, signal[ch]/2);\<close>. No line calls \<^verbatim>\<open>Gate\<close>. The one filter
  is recorded in the trace as channel 0.
\<close>

definition Controller_wf ::
  "'f collaborators \<Rightarrow> int \<Rightarrow> tick_input \<Rightarrow> int \<Rightarrow> 'f NoiseLake_wf \<Rightarrow>
   error + ('f NoiseLake_wf \<times> event list)" where
  "Controller_wf env max_cv inp cv s =
    (case noise_step_wf env max_cv inp cv s of
       Inl e \<Rightarrow> Inl e
     | Inr s0 \<Rightarrow>
        (case Parameter2Frequency_wf (fs_f (state_filter_wf s0)) of
           None \<Rightarrow> Inl OutOfBounds
         | Some fr \<Rightarrow>
            (let freq = sint fr;
                 q = Proportion env (uint (fs_q (state_filter_wf s0))) NL_MAX_PARAM 2020;
                 flt = feed env (filter_wf s0) (sint (noise_wf s0)) freq q
             in case select_tap env (fs_mode (state_filter_wf s0)) (noise_wf s0) flt of
                  Inl e \<Rightarrow> Inl e
                | Inr signal0 \<Rightarrow>
                    Inr (s0\<lparr>filter_wf := flt\<rparr>,
                         [Feed 0 (sint (noise_wf s0)) freq q,
                          Out 0 (sint signal0 sdiv 2),
                          Out 1 (sint (folded env (state_wavefolder s0) signal0) sdiv 2)]))))"

text \<open>
  An instance before \<^verbatim>\<open>Start\<close> (static storage: zero, but for the initialisers
  \<^verbatim>\<open>state_clock = 63\<close>, \<^verbatim>\<open>state_wavefolder = 0\<close>, \<^verbatim>\<open>clk_phi = 0\<close>), and \<^verbatim>\<open>void Start()\<close>.
\<close>

definition NoiseLake_wf_instance :: "'f \<Rightarrow> 'f NoiseLake_wf" where
  "NoiseLake_wf_instance flt0 =
    \<lparr>cursor_wf = 0, noise_mode_wf = 0, filter_wf = flt0, state_clock_wf = 63,
     state_filter_wf = \<lparr>fs_f = 0, fs_q = 0, fs_mode = 0\<rparr>, state_wavefolder = 0,
     clk_phi_wf = 0, clk_dphi_wf = 0, noise_wf = 0\<rparr>"

definition Start_wf :: "int \<Rightarrow> 'f NoiseLake_wf \<Rightarrow> 'f NoiseLake_wf" where
  "Start_wf r s =
    (let s = s\<lparr>noise_wf := word_of_int r\<rparr>;
         s = s\<lparr>noise_mode_wf := NOISE_MODE_BITFLIP\<rparr>;
         s = s\<lparr>clk_dphi_wf := CLKSetCFreq FSAMPLE_CHZ\<rparr>;
         s = s\<lparr>state_filter_wf := (state_filter_wf s)\<lparr>fs_f := 32\<rparr>\<rparr>;
         s = s\<lparr>state_filter_wf := (state_filter_wf s)\<lparr>fs_q := 32\<rparr>\<rparr>;
         s = s\<lparr>state_filter_wf := (state_filter_wf s)\<lparr>fs_mode := FILTER_MODE_LP\<rparr>\<rparr>;
         s = s\<lparr>state_wavefolder := 1\<rparr>
     in s)"

text \<open>
  \<^verbatim>\<open>if (++cursor > 5) cursor = 0;\<close> of \<^verbatim>\<open>OnButtonPress\<close>, and
  \<^verbatim>\<open>void OnEncoderMove(int direction)\<close> of this variant: cursor 0 sets the clock by
  \<^verbatim>\<open>CLKSetCFreq(Parameter2Clk(state_clock))\<close>, the noise mode ranges over
  \<^verbatim>\<open>constrain(noise_mode + direction, 0, 3)\<close>, the filter frequency over
  \<open>[0, CFREQ_SCALE_IDX_C7]\<close> and the folder parameter over \<open>[1, NL_MAX_PARAM]\<close>.
\<close>

definition OnButtonPress_wf :: "'f NoiseLake_wf \<Rightarrow> 'f NoiseLake_wf" where
  "OnButtonPress_wf s = s\<lparr>cursor_wf := (if cursor_wf s + 1 > 5 then 0 else cursor_wf s + 1)\<rparr>"

definition OnEncoderMove_wf :: "int \<Rightarrow> 'f NoiseLake_wf \<Rightarrow> 'f NoiseLake_wf option" where
  "OnEncoderMove_wf direction s =
    (if cursor_wf s = 0 then
       (let c = (word_of_int (constrain (uint (state_clock_wf s) + direction) 0 NL_MAX_PARAM) :: 8 word)
        in case Parameter2Clk_wf c of
             None \<Rightarrow> None
           | Some chz \<Rightarrow> Some (s\<lparr>state_clock_wf := c, clk_dphi_wf := CLKSetCFreq (ucast chz)\<rparr>))
     else if cursor_wf s = 1 then
       Some (s\<lparr>noise_mode_wf := word_of_int (constrain (uint (noise_mode_wf s) + direction) 0 3)\<rparr>)
     else if cursor_wf s = 2 then
       Some (s\<lparr>state_filter_wf := (state_filter_wf s)
         \<lparr>fs_mode := word_of_int (constrain (uint (fs_mode (state_filter_wf s)) + direction) 0 4)\<rparr>\<rparr>)
     else if cursor_wf s = 3 then
       Some (s\<lparr>state_filter_wf := (state_filter_wf s)
         \<lparr>fs_f := word_of_int (constrain (uint (fs_f (state_filter_wf s)) + direction) 0
                    (uint CFREQ_SCALE_IDX_C7))\<rparr>\<rparr>)
     else if cursor_wf s = 4 then
       Some (s\<lparr>state_filter_wf := (state_filter_wf s)
         \<lparr>fs_q := word_of_int (constrain (uint (fs_q (state_filter_wf s)) + direction) 0 NL_MAX_PARAM)\<rparr>\<rparr>)
     else if cursor_wf s = 5 then
       Some (s\<lparr>state_wavefolder := word_of_int (constrain (sint (state_wavefolder s) + direction) 1 NL_MAX_PARAM)\<rparr>)
     else Some s)"

section \<open>The first version: two channels, no bias, local samples\<close>

text \<open>
  The first file of \<^verbatim>\<open>src/unnamed/part_000\<close>: \<^verbatim>\<open>NOISE_VALUE_MAX\<close> is 4095, the clock is
  32 bits wide and does not gate the noise, BitFlip works on the value itself, the
  samples of the channels are a local array of \<^verbatim>\<open>Controller\<close>, and the outputs are not
  halved. Its definitions carry the suffix \<open>_v0\<close>. \<^verbatim>\<open>Parameter2Frequency\<close>, \<^verbatim>\<open>FilterState\<close>
  and the \<^verbatim>\<open>switch\<close> on the filter mode are those of the two-channel file, word for
  word.
\<close>

definition NOISE_VALUE_MAX_v0 :: int where "NOISE_VALUE_MAX_v0 = 4095"

definition FSAMPLE :: "32 word" where "FSAMPLE = 1666667"
definition CLK_PHI_MAX_v0 :: "32 word" where "CLK_PHI_MAX_v0 = 0xffff"

record 'f NoiseLake_v0 =
  cursor_v0 :: int
  noise_mode_v0 :: "8 word"
  filter_v0 :: "nat \<Rightarrow> 'f"
  state_filter_v0 :: "nat \<Rightarrow> FilterState"
  state_clock_v0 :: "8 word"
  clk_phi_v0 :: "32 word"
  clk_dphi_v0 :: "32 word"
  noise_v0 :: "16 word"

text \<open>\<^verbatim>\<open>clk_dphi = (cfreq*CLK_PHI_MAX)/FSAMPLE;\<close> in \<^verbatim>\<open>uint32_t\<close>.\<close>

definition CLKSetFreq :: "32 word \<Rightarrow> 32 word" where
  "CLKSetFreq cfreq = (cfreq * CLK_PHI_MAX_v0) div FSAMPLE"

text \<open>
  The ranges of the draws here: \<^verbatim>\<open>random(0, 12)\<close> and \<^verbatim>\<open>random(0, NOISE_VALUE_MAX)\<close>.
\<close>

definition draws_ok_v0 :: "tick_input \<Rightarrow> bool" where
  "draws_ok_v0 inp =
    (0 \<le> rnd_bit inp \<and> rnd_bit inp < 12 \<and>
     0 \<le> rnd_white inp \<and> rnd_white inp < NOISE_VALUE_MAX_v0)"

text \<open>
  The clock and the noise: \<^verbatim>\<open>clk_phi += clk_dphi; if (clk_phi >= CLK_PHI_MAX) { clk_phi
  -= CLK_PHI_MAX; }\<close> and then, on every tick,
  \<^verbatim>\<open>if (noise_mode == NOISE_MODE_BITFLIP) { noise ^= (1 << random(0, 12)); } else { noise =
  random(0, NOISE_VALUE_MAX); }\<close>
\<close>

definition noise_step_v0 :: "tick_input \<Rightarrow> 'f NoiseLake_v0 \<Rightarrow> 'f NoiseLake_v0" where
  "noise_step_v0 inp s =
    (let p = clk_phi_v0 s + clk_dphi_v0 s;
         p = (if p \<ge> CLK_PHI_MAX_v0 then p - CLK_PHI_MAX_v0 else p);
         s = s\<lparr>clk_phi_v0 := p\<rparr>
     in if noise_mode_v0 s = NOISE_MODE_BITFLIP
        then s\<lparr>noise_v0 := noise_v0 s XOR word_of_int (push_bit (nat (rnd_bit inp)) 1)\<rparr>
        else s\<lparr>noise_v0 := word_of_int (rnd_white inp)\<rparr>)"

text \<open>
  The body of \<^verbatim>\<open>ForEachChannel(ch)\<close>. \<^verbatim>\<open>int16_t _noise[2];\<close> is a local of
  \<^verbatim>\<open>Controller\<close>, written by \<^verbatim>\<open>if (!Gate(ch)) _noise[ch] = noise;\<close> only: with the gate
  high, \<^verbatim>\<open>filter[ch].feed(_noise[ch], freq, q)\<close> reads it unwritten. The resonance is
  \<^verbatim>\<open>Proportion(state_filter[ch].q, BNC_MAX_PARAM, 2040)\<close> and the output
  \<^verbatim>\<open>Out(ch, signal[ch]);\<close>
\<close>

definition channel_step_v0 ::
  "'f collaborators \<Rightarrow> tick_input \<Rightarrow> nat \<Rightarrow> 'f NoiseLake_v0 \<Rightarrow> event list \<Rightarrow>
   error + ('f NoiseLake_v0 \<times> event list)" where
  "channel_step_v0 env inp ch s evs =
    (if Gate inp ch then Inl UninitialisedRead
     else
       let x = noise_v0 s;
           freq = uint (Parameter2Frequency env (fs_f (state_filter_v0 s ch))) * 100;
           q = Proportion env (uint (fs_q (state_filter_v0 s ch))) BNC_MAX_PARAM 2040;
           flt = feed env (filter_v0 s ch) (sint x) freq q;
           s' = s\<lparr>filter_v0 := (filter_v0 s)(ch := flt)\<rparr>
       in case select_tap env (fs_mode (state_filter_v0 s ch)) x flt of
            Inl e \<Rightarrow> Inl e
          | Inr signal \<Rightarrow> Inr (s', evs @ [Feed ch (sint x) freq q, Out ch (sint signal)]))"

definition Controller_v0 ::
  "'f collaborators \<Rightarrow> tick_input \<Rightarrow> 'f NoiseLake_v0 \<Rightarrow> error + ('f NoiseLake_v0 \<times> event list)" where
  "Controller_v0 env inp s =
    (case channel_step_v0 env inp 0 (noise_step_v0 inp s) [] of
       Inl e \<Rightarrow> Inl e
     | Inr (s1, evs) \<Rightarrow> channel_step_v0 env inp 1 s1 evs)"

text \<open>
  An instance before \<^verbatim>\<open>Start\<close>, and \<^verbatim>\<open>void Start()\<close>: \<^verbatim>\<open>noise = random(0,
  NOISE_VALUE_MAX); noise_mode = NOISE_MODE_BITFLIP; CLKSetFreq(FSAMPLE);\<close> then the
  filter parameters as in the two-channel file. (\<^verbatim>\<open>Start\<close> also assigns
  \<^verbatim>\<open>call_count = 0\<close>; the file neither declares nor reads \<^verbatim>\<open>call_count\<close>.)
\<close>

definition NoiseLake_v0_instance :: "'f \<Rightarrow> 'f NoiseLake_v0" where
  "NoiseLake_v0_instance flt0 =
    \<lparr>cursor_v0 = 0, noise_mode_v0 = 0, filter_v0 = (\<lambda>ch. flt0),
     state_filter_v0 = (\<lambda>ch. \<lparr>fs_f = 0, fs_q = 0, fs_mode = 0\<rparr>),
     state_clock_v0 = 63, clk_phi_v0 = 0, clk_dphi_v0 = 0, noise_v0 = 0\<rparr>"

definition set_filter_v0 ::
  "nat \<Rightarrow> (FilterState \<Rightarrow> FilterState) \<Rightarrow> 'f NoiseLake_v0 \<Rightarrow> 'f NoiseLake_v0" where
  "set_filter_v0 ch upd s = s\<lparr>state_filter_v0 := (state_filter_v0 s)(ch := upd (state_filter_v0 s ch))\<rparr>"

definition Start_v0 :: "int \<Rightarrow> 'f NoiseLake_v0 \<Rightarrow> 'f NoiseLake_v0" where
  "Start_v0 r s =
    (let s = s\<lparr>noise_v0 := word_of_int r\<rparr>;
         s = s\<lparr>noise_mode_v0 := NOISE_MODE_BITFLIP\<rparr>;
         s = s\<lparr>clk_dphi_v0 := CLKSetFreq FSAMPLE\<rparr>;
         s = set_filter_v0 0 (\<lambda>fs. fs\<lparr>fs_f := 32, fs_q := 32\<rparr>) s;
         s = set_filter_v0 1 (\<lambda>fs. fs\<lparr>fs_f := 32, fs_q := 32\<rparr>) s;
         s = set_filter_v0 0 (\<lambda>fs. fs\<lparr>fs_mode := FILTER_MODE_LP\<rparr>) s;
         s = set_filter_v0 1 (\<lambda>fs. fs\<lparr>fs_mode := FILTER_MODE_BP\<rparr>) s
     in s)"

section \<open>Collaborators for evaluation\<close>

text \<open>
  Stand-ins for the code outside \<^verbatim>\<open>src/\<close>, used only to run the model at concrete
  inputs; every theorem below holds for all collaborators. The filter records what it
  was fed and its taps read the last input.
\<close>

text \<open>
  Modelled from the spec: \<^verbatim>\<open>Proportion\<close> of the applet base class is not under
  \<^verbatim>\<open>src/\<close>; the spec gives \<open>map(p, p_max, out_max) = (p * out_max) / p_max\<close>.
\<close>

definition Proportion_spec :: "int \<Rightarrow> int \<Rightarrow> int \<Rightarrow> int" where
  "Proportion_spec p p_max out_max = (p * out_max) sdiv p_max"

definition probe :: "(int list) collaborators" where
  "probe =
    \<lparr>Proportion = Proportion_spec,
     feed = (\<lambda>flt x fr q. x # flt),
     get_lp = (\<lambda>flt. case flt of [] \<Rightarrow> 0 | x # _ \<Rightarrow> x),
     get_bp = (\<lambda>flt. case flt of [] \<Rightarrow> 0 | x # _ \<Rightarrow> x),
     get_hp = (\<lambda>flt. case flt of [] \<Rightarrow> 0 | x # _ \<Rightarrow> x),
     get_no = (\<lambda>flt. case flt of [] \<Rightarrow> 0 | x # _ \<Rightarrow> x)\<rparr>"

section \<open>Observations of a tick\<close>

text \<open>The calls of \<^verbatim>\<open>feed\<close> on channel \<open>ch\<close> in a trace, with their arguments, in order.\<close>

definition fed :: "event list \<Rightarrow> nat \<Rightarrow> (int \<times> int \<times> int) list" where
  "fed evs ch =
    concat (map (\<lambda>e. case e of Feed c x fr q \<Rightarrow> if c = ch then [(x, fr, q)] else []
                          | Out c v \<Rightarrow> []) evs)"

text \<open>The values given to \<^verbatim>\<open>Out\<close> on channel \<open>ch\<close> in a trace, in order.\<close>

definition emitted :: "event list \<Rightarrow> nat \<Rightarrow> int list" where
  "emitted evs ch =
    concat (map (\<lambda>e. case e of Feed c x fr q \<Rightarrow> []
                          | Out c v \<Rightarrow> if c = ch then [v] else []) evs)"

text \<open>
  Names for the three arguments \<^verbatim>\<open>Controller\<close> gives to \<^verbatim>\<open>feed\<close> on a channel: the
  sample after the gate, the mapped frequency and the mapped resonance.
\<close>

definition held :: "tick_input \<Rightarrow> nat \<Rightarrow> 'f NoiseLake \<Rightarrow> 16 word" where
  "held inp ch s = (if \<not> Gate inp ch then noise s else ch_noise s ch)"

definition freq_of :: "'f collaborators \<Rightarrow> 'f NoiseLake \<Rightarrow> nat \<Rightarrow> int" where
  "freq_of env s ch = uint (Parameter2Frequency env (fs_f (state_filter s ch))) * 100"

definition q_of :: "'f collaborators \<Rightarrow> 'f NoiseLake \<Rightarrow> nat \<Rightarrow> int" where
  "q_of env s ch = Proportion env (uint (fs_q (state_filter s ch))) BNC_MAX_PARAM 2020"

text \<open>
  The host calls \<^verbatim>\<open>Controller\<close> once per tick: a run over a list of inputs, with the
  trace of each tick.
\<close>

fun run_ticks ::
  "'f collaborators \<Rightarrow> tick_input list \<Rightarrow> 'f NoiseLake \<Rightarrow> error + ('f NoiseLake \<times> event list list)" where
  "run_ticks env [] s = Inr (s, [])"
| "run_ticks env (i # is) s =
    (case Controller env i s of
       Inl e \<Rightarrow> Inl e
     | Inr (s', evs) \<Rightarrow>
        (case run_ticks env is s' of
           Inl e \<Rightarrow> Inl e
         | Inr (s'', tr) \<Rightarrow> Inr (s'', evs # tr)))"


text \<open>
  The interpolation sum of \<^verbatim>\<open>InterpolationFolder\<close> for a magnitude \<open>m\<close>: the value of
  \<open>y\<close> in the branch \<^verbatim>\<open>x >= 0\<close> at \<open>x = m\<close>, before the division by \<open>dx\<close>.
\<close>

definition fold_sum :: "int \<Rightarrow> int" where
  "fold_sum m =
    (let i = fold_bucket (m sdiv fold_dx)
     in FOLDCURVE ! i * ((int i + 1) * fold_dx - m) + FOLDCURVE ! (i + 1) * (m - int i * fold_dx))"

section \<open>States and inputs for evaluation\<close>

text \<open>The applet after \<^verbatim>\<open>Start\<close>, with the stand-in filters; \<open>r\<close> is the first draw.\<close>

definition power_on :: "int \<Rightarrow> int list NoiseLake" where
  "power_on r = Start r (NoiseLake_instance [])"

text \<open>
  Inputs of a tick with both gates low, and with both gates high; \<open>b\<close> is the draw of
  the bit index and \<open>w\<close> the draw of the White sample.
\<close>

definition tick_free :: "int \<Rightarrow> int \<Rightarrow> tick_input" where
  "tick_free b w = \<lparr>Gate = (\<lambda>ch. False), rnd_eta = 1000, rnd_sign = 1, rnd_bit = b, rnd_white = w\<rparr>"

definition tick_held :: "int \<Rightarrow> int \<Rightarrow> tick_input" where
  "tick_held b w = \<lparr>Gate = (\<lambda>ch. True), rnd_eta = 1000, rnd_sign = 1, rnd_bit = b, rnd_white = w\<rparr>"

text \<open>
  A state the user interface reaches from \<^verbatim>\<open>Start\<close>: an encoder step up at cursor 0
  sets the clock from parameter 63; a button press and a step down change BitFlip to
  White; a button press and a step down change the filter of channel 0 from LP to Off.
\<close>

definition white_off_state :: "'f \<Rightarrow> 'f NoiseLake option" where
  "white_off_state flt0 =
    Option.bind (OnEncoderMove 1 (Start 100 (NoiseLake_instance flt0)))
      (\<lambda>s. Option.bind (OnEncoderMove (- 1) (OnButtonPress s))
        (\<lambda>s. OnEncoderMove (- 1) (OnButtonPress s)))"

text \<open>
  A state the user interface reaches from \<^verbatim>\<open>Start\<close>: one button press moves the
  cursor to the noise mode, one encoder step up changes BitFlip to Crackle.
\<close>

definition crackle_state :: "'f \<Rightarrow> 'f NoiseLake option" where
  "crackle_state flt0 = OnEncoderMove 1 (OnButtonPress (Start 5 (NoiseLake_instance flt0)))"

text \<open>
  The two older variants after their \<^verbatim>\<open>Start\<close>, with the stand-in filters.
\<close>

definition power_on_wf :: "int \<Rightarrow> int list NoiseLake_wf" where
  "power_on_wf r = Start_wf r (NoiseLake_wf_instance [])"

definition power_on_v0 :: "int \<Rightarrow> int list NoiseLake_v0" where
  "power_on_v0 r = Start_v0 r (NoiseLake_v0_instance [])"

text \<open>
  A state the user interface of the single-filter variant reaches from \<^verbatim>\<open>Start\<close>: a
  button press and a step down change BitFlip to White, a button press and a step down
  change the filter from LP to Off.
\<close>

definition white_off_state_wf :: "int list NoiseLake_wf option" where
  "white_off_state_wf =
    Option.bind (OnEncoderMove_wf (- 1) (OnButtonPress_wf (power_on_wf 100)))
      (\<lambda>s. OnEncoderMove_wf (- 1) (OnButtonPress_wf s))"

text \<open>
  A state of the two-channel applet reached from \<^verbatim>\<open>Start\<close> by the user interface and
  two ticks: a step down at cursor 0 sets the clock from parameter 62, a button press and
  a step up change BitFlip to Crackle, a tick draws \<open>eta = 1\<close> and the sign 0, a step
  down changes Crackle back to BitFlip, and a tick advances the clock without a wrap.
\<close>

definition tick_burst :: tick_input where
  "tick_burst = \<lparr>Gate = (\<lambda>ch. False), rnd_eta = 1, rnd_sign = 0, rnd_bit = 0, rnd_white = 0\<rparr>"

definition after_tick :: "tick_input \<Rightarrow> int list NoiseLake \<Rightarrow> int list NoiseLake option" where
  "after_tick inp s = (case Controller probe inp s of Inl e \<Rightarrow> None | Inr (s', evs) \<Rightarrow> Some s')"

definition overdriven_state :: "int list NoiseLake option" where
  "overdriven_state =
    Option.bind (OnEncoderMove (- 1) (power_on 0))
      (\<lambda>s. Option.bind (OnEncoderMove 1 (OnButtonPress s))
        (\<lambda>s. Option.bind (after_tick tick_burst s)
          (\<lambda>s. Option.bind (OnEncoderMove (- 1) s)
            (\<lambda>s. after_tick (tick_free 0 0) s))))"

section \<open>Words and truncating division\<close>

lemma sint_i16: "- 32768 \<le> i \<Longrightarrow> i < 32768 \<Longrightarrow> sint (word_of_int i :: 16 word) = i"
  by (simp add: sint_sbintrunc' signed_take_bit_int_eq_self)

lemma abs_bound_int: "\<bar>x\<bar> \<le> c \<Longrightarrow> c \<le> d \<Longrightarrow> - d \<le> x \<and> x \<le> (d::int)"
  by linarith

lemma uint_u16: "0 \<le> i \<Longrightarrow> i < 65536 \<Longrightarrow> uint (word_of_int i :: 16 word) = i"
  by (simp add: uint_word_of_int take_bit_int_eq_self)

lemma sint_neg_i16:
  fixes x :: "16 word"
  assumes "- 32768 < sint x"
  shows "sint (- x) = - sint x"
proof -
  have "sint x < 32768" using sint_lt [of x] by simp
  then show ?thesis
    using assms by (simp add: sint_word_minus signed_take_bit_int_eq_self)
qed

lemma sdiv_neg: "(- a) sdiv (b::int) = - (a sdiv b)"
  by (simp add: signed_divide_int_def sgn_minus)

lemma smod_abs: "0 < l \<Longrightarrow> \<bar>s smod l\<bar> = \<bar>s\<bar> mod (l::int)"
  by (simp add: signed_modulo_int_def abs_mult sgn_if)

lemma smod_2_even: "((x::int) smod 2 = 0) = even x"
proof (cases "x = 0")
  case True
  then show ?thesis by simp
next
  case False
  then have "(x smod 2 = 0) = (\<bar>x\<bar> mod 2 = 0)"
    by (simp add: signed_modulo_int_def sgn_if)
  also have "\<dots> = even \<bar>x\<bar>" by (simp only: even_iff_mod_2_eq_zero)
  also have "\<dots> = even x" by simp
  finally show ?thesis .
qed

lemma sdiv_even: "0 < l \<Longrightarrow> ((s sdiv l) smod 2 = 0) = even (\<bar>s\<bar> div (l::int))"
proof -
  assume l: "0 < l"
  have "even (s sdiv l) = even (\<bar>s\<bar> div l)"
  proof (cases "s = 0")
    case True
    then show ?thesis by simp
  next
    case False
    then have "s sdiv l = \<bar>s\<bar> div l \<or> s sdiv l = - (\<bar>s\<bar> div l)"
      using l by (simp add: signed_divide_int_def sgn_if)
    then show ?thesis by auto
  qed
  then show ?thesis by (simp only: smod_2_even)
qed

section \<open>The shape of a tick\<close>

lemma channel_step_Inr:
  assumes "channel_step env inp ch s evs = Inr (s', evs')"
  shows "\<exists>signal.
      select_tap env (fs_mode (state_filter s ch)) (held inp ch s)
        (feed env (filter_sv s ch) (sint (held inp ch s)) (freq_of env s ch) (q_of env s ch)) = Inr signal \<and>
      s' = s\<lparr>ch_noise := (ch_noise s)(ch := held inp ch s),
            filter_sv := (filter_sv s)(ch := feed env (filter_sv s ch) (sint (held inp ch s)) (freq_of env s ch) (q_of env s ch))\<rparr> \<and>
      evs' = evs @ [Feed ch (sint (held inp ch s)) (freq_of env s ch) (q_of env s ch), Out ch (sint signal sdiv 2)]"
  using assms
  by (auto simp: channel_step_def Let_def held_def freq_of_def q_of_def split: sum.splits)

lemma Controller_Inr:
  assumes "Controller env inp s = Inr (s', evs)"
  obtains sn s1 evs1 where "noise_step inp s = Inr sn"
    and "channel_step env inp 0 sn [] = Inr (s1, evs1)"
    and "channel_step env inp 1 s1 evs1 = Inr (s', evs)"
  using assms by (auto simp: Controller_def split: sum.splits)

lemma noise_step_frame:
  assumes "noise_step inp s = Inr sn"
  shows "ch_noise sn = ch_noise s \<and> state_filter sn = state_filter s \<and> filter_sv sn = filter_sv s
     \<and> clk_dphi sn = clk_dphi s \<and> noise_mode sn = noise_mode s"
  using assms by (auto simp: noise_step_def split: sum.splits prod.splits if_splits)

text \<open>What a tick does on each channel, in one statement.\<close>

lemma Controller_channels:
  assumes "Controller env inp s = Inr (s', evs)" and "ch < 2"
  obtains sn signal where "noise_step inp s = Inr sn"
    and "noise s' = noise sn" and "clk_phi s' = clk_phi sn"
    and "ch_noise s' ch = (if \<not> Gate inp ch then noise sn else ch_noise s ch)"
    and "filter_sv s' ch = feed env (filter_sv s ch) (sint (ch_noise s' ch)) (freq_of env s ch) (q_of env s ch)"
    and "select_tap env (fs_mode (state_filter s ch)) (ch_noise s' ch) (filter_sv s' ch) = Inr signal"
    and "fed evs ch = [(sint (ch_noise s' ch), freq_of env s ch, q_of env s ch)]"
    and "emitted evs ch = [sint signal sdiv 2]"
proof -
  from assms(1) obtain sn s1 evs1 where n: "noise_step inp s = Inr sn"
    and c0: "channel_step env inp 0 sn [] = Inr (s1, evs1)"
    and c1: "channel_step env inp 1 s1 evs1 = Inr (s', evs)"
    by (rule Controller_Inr)
  note fr = noise_step_frame [OF n]
  from channel_step_Inr [OF c0] obtain sig0 where
    t0: "select_tap env (fs_mode (state_filter sn 0)) (held inp 0 sn)
        (feed env (filter_sv sn 0) (sint (held inp 0 sn)) (freq_of env sn 0) (q_of env sn 0)) = Inr sig0"
    and s1: "s1 = sn\<lparr>ch_noise := (ch_noise sn)(0 := held inp 0 sn),
            filter_sv := (filter_sv sn)(0 := feed env (filter_sv sn 0) (sint (held inp 0 sn)) (freq_of env sn 0) (q_of env sn 0))\<rparr>"
    and e1: "evs1 = [] @ [Feed 0 (sint (held inp 0 sn)) (freq_of env sn 0) (q_of env sn 0), Out 0 (sint sig0 sdiv 2)]"
    by (elim exE conjE)
  from channel_step_Inr [OF c1] obtain sig1 where
    t1: "select_tap env (fs_mode (state_filter s1 1)) (held inp 1 s1)
        (feed env (filter_sv s1 1) (sint (held inp 1 s1)) (freq_of env s1 1) (q_of env s1 1)) = Inr sig1"
    and s2: "s' = s1\<lparr>ch_noise := (ch_noise s1)(1 := held inp 1 s1),
            filter_sv := (filter_sv s1)(1 := feed env (filter_sv s1 1) (sint (held inp 1 s1)) (freq_of env s1 1) (q_of env s1 1))\<rparr>"
    and e2: "evs = evs1 @ [Feed 1 (sint (held inp 1 s1)) (freq_of env s1 1) (q_of env s1 1), Out 1 (sint sig1 sdiv 2)]"
    by (elim exE conjE)
  from assms(2) have "ch = 0 \<or> ch = 1" by auto
  then show ?thesis
  proof
    assume ch: "ch = 0"
    show ?thesis
      by (rule that [of sn sig0])
        (use n fr t0 in \<open>simp_all add: ch s2 s1 e2 e1 held_def freq_of_def q_of_def fed_def emitted_def\<close>)
  next
    assume ch: "ch = 1"
    show ?thesis
      by (rule that [of sn sig1])
        (use n fr t1 in \<open>simp_all add: ch s2 s1 e2 e1 held_def freq_of_def q_of_def fed_def emitted_def\<close>)
  qed
qed

lemma Controller_effect:
  assumes "Controller env inp s = Inr (s', evs)" and "ch < 2"
  shows "ch_noise s' ch = (if \<not> Gate inp ch then noise s' else ch_noise s ch)"
    and "filter_sv s' ch =
      feed env (filter_sv s ch) (sint (ch_noise s' ch)) (freq_of env s ch) (q_of env s ch)"
    and "fed evs ch = [(sint (ch_noise s' ch), freq_of env s ch, q_of env s ch)]"
    and "\<exists>signal. select_tap env (fs_mode (state_filter s ch)) (ch_noise s' ch) (filter_sv s' ch) = Inr signal \<and>
           emitted evs ch = [sint signal sdiv 2]"
    and "\<exists>sn. noise_step inp s = Inr sn \<and> noise s' = noise sn \<and> clk_phi s' = clk_phi sn"
proof -
  from assms obtain sn signal where h: "noise_step inp s = Inr sn"
    "noise s' = noise sn" "clk_phi s' = clk_phi sn"
    "ch_noise s' ch = (if \<not> Gate inp ch then noise sn else ch_noise s ch)"
    "filter_sv s' ch = feed env (filter_sv s ch) (sint (ch_noise s' ch)) (freq_of env s ch) (q_of env s ch)"
    "select_tap env (fs_mode (state_filter s ch)) (ch_noise s' ch) (filter_sv s' ch) = Inr signal"
    "fed evs ch = [(sint (ch_noise s' ch), freq_of env s ch, q_of env s ch)]"
    "emitted evs ch = [sint signal sdiv 2]"
    by (rule Controller_channels)
  show "ch_noise s' ch = (if \<not> Gate inp ch then noise s' else ch_noise s ch)"
    using h(2,4) by simp
  show "filter_sv s' ch =
      feed env (filter_sv s ch) (sint (ch_noise s' ch)) (freq_of env s ch) (q_of env s ch)"
    by (rule h(5))
  show "fed evs ch = [(sint (ch_noise s' ch), freq_of env s ch, q_of env s ch)]"
    by (rule h(7))
  show "\<exists>signal. select_tap env (fs_mode (state_filter s ch)) (ch_noise s' ch) (filter_sv s' ch) = Inr signal \<and>
           emitted evs ch = [sint signal sdiv 2]"
    using h(6,8) by blast
  show "\<exists>sn. noise_step inp s = Inr sn \<and> noise s' = noise sn \<and> clk_phi s' = clk_phi sn"
    using h(1,2,3) by blast
qed

lemma noise_step_returns:
  assumes "noise_mode s \<noteq> NOISE_MODE_CRACKLE"
  shows "\<exists>sn. noise_step inp s = Inr sn"
  using assms by (simp add: noise_step_def split: prod.split)

lemma select_tap_returns:
  assumes "m \<le> 4"
  shows "\<exists>signal. select_tap env m x flt = Inr signal"
proof -
  have "unat m \<le> 4" using assms by (simp add: word_le_nat_alt)
  then have "unat m = 0 \<or> unat m = 1 \<or> unat m = 2 \<or> unat m = 3 \<or> unat m = 4" by arith
  moreover have "m = of_nat (unat m)" by simp
  ultimately have "m = 0 \<or> m = 1 \<or> m = 2 \<or> m = 3 \<or> m = 4"
    by (elim disjE) simp_all
  then show ?thesis
    by (auto simp: select_tap_def FILTER_MODE_OFF_def FILTER_MODE_LP_def FILTER_MODE_BP_def
        FILTER_MODE_HP_def FILTER_MODE_NOTCH_def)
qed

lemma Controller_returns:
  assumes "fs_mode (state_filter s 0) \<le> 4" and "fs_mode (state_filter s 1) \<le> 4"
    and "noise_mode s \<noteq> NOISE_MODE_CRACKLE"
  shows "\<exists>s' evs. Controller env inp s = Inr (s', evs)"
proof -
  obtain sn where n: "noise_step inp s = Inr sn"
    using noise_step_returns [OF assms(3), of inp] by blast
  note fr = noise_step_frame [OF n]
  obtain g0 where g0: "select_tap env (fs_mode (state_filter sn 0)) (held inp 0 sn)
     (feed env (filter_sv sn 0) (sint (held inp 0 sn)) (freq_of env sn 0) (q_of env sn 0)) = Inr g0"
    using select_tap_returns assms(1) fr by metis
  then obtain s1 evs1 where c0: "channel_step env inp 0 sn [] = Inr (s1, evs1)"
    by (simp add: channel_step_def Let_def held_def freq_of_def q_of_def)
  have "state_filter s1 = state_filter sn"
    using channel_step_Inr [OF c0] by auto
  then have m1: "fs_mode (state_filter s1 1) \<le> 4" using assms(2) fr by simp
  obtain g1 where g1: "select_tap env (fs_mode (state_filter s1 1)) (held inp 1 s1)
     (feed env (filter_sv s1 1) (sint (held inp 1 s1)) (freq_of env s1 1) (q_of env s1 1)) = Inr g1"
    using select_tap_returns m1 by metis
  then obtain s2 evs2 where c1: "channel_step env inp 1 s1 evs1 = Inr (s2, evs2)"
    by (simp add: channel_step_def Let_def held_def freq_of_def q_of_def)
  show ?thesis using n c0 c1 by (simp add: Controller_def)
qed

lemma noise_step_clock:
  assumes "noise_mode s \<noteq> NOISE_MODE_CRACKLE" and "noise_step inp s = Inr sn"
  shows "clk_phi sn = fst (clk_advance (clk_phi s) (clk_dphi s))"
    and "noise sn =
      (if snd (clk_advance (clk_phi s) (clk_dphi s))
       then if noise_mode s = NOISE_MODE_BITFLIP then bitflip inp (noise s) else white inp
       else noise s)"
  using assms by (auto simp: noise_step_def split: prod.splits if_splits)

lemma noise_step_crackle:
  assumes "noise_mode s = NOISE_MODE_CRACKLE" and "noise_step inp s = Inr sn"
  shows "crackle inp (clk_dphi s) (noise s) = Inr (noise sn)"
  using assms by (auto simp: noise_step_def split: sum.splits)


lemma select_tap_mode:
  assumes "select_tap env m x flt = Inr g"
  shows "\<exists>g'. select_tap env' m x' flt' = Inr g'"
  using assms by (auto simp: select_tap_def split: if_splits)

lemma noise_step_filters:
  "noise_step inp (s\<lparr>filter_sv := fl, state_filter := sf\<rparr>) =
    (case noise_step inp s of Inl e \<Rightarrow> Inl e | Inr sn \<Rightarrow> Inr (sn\<lparr>filter_sv := fl, state_filter := sf\<rparr>))"
  by (simp add: noise_step_def split: sum.splits prod.splits)

lemma channel_step_returns:
  assumes "select_tap env (fs_mode (state_filter s ch)) x flt = Inr g"
    and m: "fs_mode (sf ch) = fs_mode (state_filter s ch)"
  shows "\<exists>s' evs'. channel_step env' inp ch (s\<lparr>filter_sv := fl, state_filter := sf\<rparr>) evs = Inr (s', evs')"
proof -
  let ?t = "s\<lparr>filter_sv := fl, state_filter := sf\<rparr>"
  have "\<exists>g'. select_tap env' (fs_mode (sf ch)) (held inp ch ?t)
      (feed env' (fl ch) (sint (held inp ch ?t)) (freq_of env' ?t ch) (q_of env' ?t ch)) = Inr g'"
    unfolding m by (rule select_tap_mode [OF assms(1)])
  then show ?thesis
    by (auto simp: channel_step_def Let_def held_def freq_of_def q_of_def)
qed

text \<open>Changing the collaborators, the filter states and the parameters f and q (the modes kept).\<close>

lemma Controller_other_filters:
  assumes "Controller env inp s = Inr (s', evs)"
    and "\<forall>c. fs_mode (sf c) = fs_mode (state_filter s c)"
  shows "\<exists>t evs2. Controller env2 inp (s\<lparr>filter_sv := fl, state_filter := sf\<rparr>) = Inr (t, evs2)"
proof -
  from assms(1) obtain sn s1 evs1 where n: "noise_step inp s = Inr sn"
    and c0: "channel_step env inp 0 sn [] = Inr (s1, evs1)"
    and c1: "channel_step env inp 1 s1 evs1 = Inr (s', evs)"
    by (rule Controller_Inr)
  note fr = noise_step_frame [OF n]
  have n2: "noise_step inp (s\<lparr>filter_sv := fl, state_filter := sf\<rparr>) = Inr (sn\<lparr>filter_sv := fl, state_filter := sf\<rparr>)"
    using n by (simp add: noise_step_filters)
  from channel_step_Inr [OF c0] obtain g0 where
    g0: "select_tap env (fs_mode (state_filter sn 0)) (held inp 0 sn)
        (feed env (filter_sv sn 0) (sint (held inp 0 sn)) (freq_of env sn 0) (q_of env sn 0)) = Inr g0"
    and s1: "state_filter s1 = state_filter sn" by auto
  have m0: "fs_mode (sf 0) = fs_mode (state_filter sn 0)" using assms(2) fr by simp
  from channel_step_returns [where s = sn and ch = 0 and sf = sf and env' = env2 and inp = inp
      and fl = fl and evs = "[]", OF g0 m0] obtain t1 e1 where
    d0: "channel_step env2 inp 0 (sn\<lparr>filter_sv := fl, state_filter := sf\<rparr>) [] = Inr (t1, e1)" by blast
  from channel_step_Inr [OF d0] have t1: "state_filter t1 = sf" by auto
  from channel_step_Inr [OF c1] obtain g1 where
    g1: "select_tap env (fs_mode (state_filter s1 1)) (held inp 1 s1)
        (feed env (filter_sv s1 1) (sint (held inp 1 s1)) (freq_of env s1 1) (q_of env s1 1)) = Inr g1" by auto
  have m1: "fs_mode (state_filter t1 1) = fs_mode (state_filter s1 1)" using assms(2) fr s1 t1 by simp
  have "\<exists>g'. select_tap env2 (fs_mode (state_filter t1 1)) (held inp 1 t1)
      (feed env2 (filter_sv t1 1) (sint (held inp 1 t1)) (freq_of env2 t1 1) (q_of env2 t1 1)) = Inr g'"
    unfolding m1 by (rule select_tap_mode [OF g1])
  then obtain t2 e2 where d1: "channel_step env2 inp 1 t1 e1 = Inr (t2, e2)"
    by (auto simp: channel_step_def Let_def held_def freq_of_def q_of_def)
  show ?thesis using n2 d0 d1 by (simp add: Controller_def)
qed

section \<open>Facts about the states for evaluation\<close>

lemma Start_eq:
  "Start r s =
    s\<lparr>noise := word_of_int r, noise_mode := NOISE_MODE_BITFLIP,
      clk_dphi := CLKSetCFreq FSAMPLE_CHZ,
      state_filter := (state_filter s)
        (0 := (state_filter s 0)\<lparr>fs_f := 32, fs_q := 32, fs_mode := FILTER_MODE_LP\<rparr>,
         1 := (state_filter s 1)\<lparr>fs_f := 32, fs_q := 32, fs_mode := FILTER_MODE_BP\<rparr>)\<rparr>"
  by (simp add: Start_def set_filter_def Let_def fun_upd_twist)

lemmas ui_defs = OnEncoderMove_def OnButtonPress_def Start_eq NoiseLake_instance_def constrain_def
  set_filter_def Parameter2Clk_def table_at_def FREQ_SCALE_def CLKSetCFreq_def FSAMPLE_CHZ_def
  CLK_PHI_MAX_def BNC_MAX_PARAM_def NOISE_MODE_BITFLIP_def NOISE_MODE_CRACKLE_def NOISE_MODE_WHITE_def
  FILTER_MODE_OFF_def FILTER_MODE_LP_def FILTER_MODE_BP_def FILTER_MODE_HP_def FILTER_MODE_NOTCH_def

lemmas tick_defs = Controller_def noise_step_def clk_advance_def bitflip_def white_def crackle_def
  channel_step_def select_tap_def Parameter2Frequency_def Let_def NOISE_VALUE_MAX_def
  tick_free_def tick_held_def draws_ok_def

lemmas wf_defs = Controller_wf_def noise_step_wf_def folded_def Start_wf_def NoiseLake_wf_instance_def
  OnEncoderMove_wf_def OnButtonPress_wf_def power_on_wf_def Parameter2Frequency_wf_def
  Parameter2Clk_wf_def CFREQ_SCALE_def CFREQ_SCALE_IDX_C7_def NL_MAX_PARAM_def NOISE_MODE_LINEIN_def

lemmas v0_defs = Controller_v0_def channel_step_v0_def noise_step_v0_def Start_v0_def set_filter_v0_def
  NoiseLake_v0_instance_def power_on_v0_def CLKSetFreq_def FSAMPLE_def CLK_PHI_MAX_v0_def
  NOISE_VALUE_MAX_v0_def draws_ok_v0_def

lemma crackle_state_eq:
  "crackle_state flt0 =
    Some ((Start 5 (NoiseLake_instance flt0))\<lparr>cursor := 1, noise_mode := NOISE_MODE_CRACKLE\<rparr>)"
  by (simp add: crackle_state_def OnEncoderMove_def OnButtonPress_def Start_eq
      NoiseLake_instance_def constrain_def NOISE_MODE_BITFLIP_def NOISE_MODE_CRACKLE_def)

lemma CLKSetCFreq_full: "CLKSetCFreq FSAMPLE_CHZ = 65535"
  by (simp add: CLKSetCFreq_def FSAMPLE_CHZ_def CLK_PHI_MAX_def)

lemma start_facts:
  "noise_mode (power_on r) = NOISE_MODE_BITFLIP"
  "clk_dphi (power_on r) = 65535"
  "clk_phi (power_on r) = 0"
  "fs_mode (state_filter (power_on r) 0) = 1"
  "fs_mode (state_filter (power_on r) 1) = 2"
  "fs_mode (state_filter (power_on r) (Suc 0)) = 2"
  "noise (power_on r) = word_of_int r"
  by (simp_all add: power_on_def ui_defs)

lemma start_returns:
  "\<exists>s' evs. Controller env inp (power_on r) = Inr (s', evs)"
  by (rule Controller_returns) (simp_all add: start_facts NOISE_MODE_BITFLIP_def NOISE_MODE_CRACKLE_def)

lemma white_off_state_facts:
  "\<exists>s. white_off_state flt0 = Some s \<and> noise_mode s = NOISE_MODE_WHITE \<and> state_clock s = 63 \<and>
     clk_dphi s = 65536 \<and> clk_phi s = 0 \<and> fs_mode (state_filter s 0) = FILTER_MODE_OFF \<and>
     fs_mode (state_filter s (Suc 0)) = FILTER_MODE_BP \<and> noise s = 100"
  by (simp add: white_off_state_def ui_defs)

section \<open>Division in the tick\<close>

text \<open>
  C1. The claim is that no division of the tick has a zero divisor, and that in
  Crackle mode the quotient \<^verbatim>\<open>clk_dphi / eta\<close> is taken with \<open>eta \<noteq> 0\<close>. The code
  has no such guard: in the state \<open>crackle_state\<close> (Crackle mode, \<open>clk_dphi = 65535\<close>
  as \<^verbatim>\<open>Start\<close> leaves it) the draw \<open>eta = 0\<close>, which lies in \<open>[0, CLK_PHI_MAX)\<close>, passes
  the test \<^verbatim>\<open>eta < clk_dphi\<close> and the tick divides by zero.
\<close>

theorem Controller_crackle_divides_by_zero:
  "draws_ok \<lparr>Gate = (\<lambda>ch. False), rnd_eta = 0, rnd_sign = 0, rnd_bit = 0, rnd_white = 0\<rparr> \<and>
   map_option (\<lambda>s. (noise_mode s, clk_dphi s)) (crackle_state flt0) = Some (NOISE_MODE_CRACKLE, 65535) \<and>
   map_option
     (Controller env \<lparr>Gate = (\<lambda>ch. False), rnd_eta = 0, rnd_sign = 0, rnd_bit = 0, rnd_white = 0\<rparr>)
     (crackle_state flt0) = Some (Inl DivisionByZero)"
  by (simp add: crackle_state_eq draws_ok_def Controller_def noise_step_def crackle_def
      Start_eq NoiseLake_instance_def CLKSetCFreq_def FSAMPLE_CHZ_def CLK_PHI_MAX_def
      NOISE_VALUE_MAX_def)

section \<open>The gate\<close>




section \<open>The phase clock\<close>

lemma CLKSetCFreq_unat:
  assumes "cfreq \<le> FSAMPLE_CHZ"
  shows "unat (CLKSetCFreq cfreq) = (unat cfreq * 65535) div 1666667"
proof -
  have c: "unat cfreq \<le> 1666667"
    using assms by (simp add: FSAMPLE_CHZ_def word_le_nat_alt)
  have "unat (cfreq * CLK_PHI_MAX) = unat cfreq * 65535"
    using c by (simp add: CLK_PHI_MAX_def unat_word_ariths)
  then show ?thesis
    by (simp add: CLKSetCFreq_def FSAMPLE_CHZ_def unat_div)
qed

lemma CLKSetCFreq_le:
  assumes "cfreq \<le> FSAMPLE_CHZ"
  shows "CLKSetCFreq cfreq \<le> CLK_PHI_MAX"
proof -
  have c: "unat cfreq \<le> 1666667"
    using assms by (simp add: FSAMPLE_CHZ_def word_le_nat_alt)
  then have "(unat cfreq * 65535) div 1666667 \<le> 65535" by simp
  then show ?thesis
    using CLKSetCFreq_unat [OF assms] by (simp add: word_le_nat_alt CLK_PHI_MAX_def)
qed

lemma clk_advance_unat:
  assumes "phi < CLK_PHI_MAX" "dphi \<le> CLK_PHI_MAX"
  shows "unat (fst (clk_advance phi dphi)) = (unat phi + unat dphi) mod 65535"
    and "snd (clk_advance phi dphi) = (65535 \<le> unat phi + unat dphi)"
    and "(if snd (clk_advance phi dphi) then 1 else 0) = (unat phi + unat dphi) div 65535"
proof -
  have p: "unat phi < 65535" and d: "unat dphi \<le> 65535"
    using assms by (simp_all add: CLK_PHI_MAX_def word_less_nat_alt word_le_nat_alt)
  have s: "unat (phi + dphi) = unat phi + unat dphi"
    using p d by (simp add: unat_word_ariths)
  show "snd (clk_advance phi dphi) = (65535 \<le> unat phi + unat dphi)"
    using s by (simp add: clk_advance_def Let_def CLK_PHI_MAX_def word_le_nat_alt)
  show "unat (fst (clk_advance phi dphi)) = (unat phi + unat dphi) mod 65535"
  proof (cases "65535 \<le> unat phi + unat dphi")
    case True
    then have "unat (phi + dphi - 65535) = unat phi + unat dphi - 65535"
      using s by (simp add: unat_sub word_le_nat_alt)
    moreover have "(unat phi + unat dphi) mod 65535 = unat phi + unat dphi - 65535"
      using True p d by (simp add: mod_if le_mod_geq)
    ultimately show ?thesis
      using True s by (simp add: clk_advance_def Let_def CLK_PHI_MAX_def word_le_nat_alt)
  next
    case False
    then show ?thesis
      using s by (simp add: clk_advance_def Let_def CLK_PHI_MAX_def word_le_nat_alt)
  qed
  show "(if snd (clk_advance phi dphi) then 1 else 0) = (unat phi + unat dphi) div 65535"
  proof (cases "65535 \<le> unat phi + unat dphi")
    case True
    then have "(unat phi + unat dphi) div 65535 = 1"
      using p d by (simp add: div_nat_eqI)
    then show ?thesis using True s
      by (simp add: clk_advance_def Let_def CLK_PHI_MAX_def word_le_nat_alt)
  next
    case False
    then show ?thesis
      using s by (simp add: clk_advance_def Let_def CLK_PHI_MAX_def word_le_nat_alt)
  qed
qed

lemma div_carry:
  fixes t k :: nat
  shows "(t mod 65535 + k) div 65535 + t div 65535 = (t + k) div 65535"
proof -
  have "t + k = (t mod 65535 + k) + 65535 * (t div 65535)" by simp
  then have "(t + k) div 65535 = ((t mod 65535 + k) + 65535 * (t div 65535)) div 65535"
    by (simp only:)
  also have "\<dots> = (t mod 65535 + k) div 65535 + t div 65535"
    by (simp only: div_mult_self2 [of 65535 "t mod 65535 + k" "t div 65535"])
  finally show ?thesis by simp
qed

lemma clk_run_unat:
  assumes "dphi \<le> CLK_PHI_MAX"
  shows "phi < CLK_PHI_MAX \<Longrightarrow>
     unat (fst (clk_run n phi dphi)) = (unat phi + n * unat dphi) mod 65535 \<and>
     snd (clk_run n phi dphi) = (unat phi + n * unat dphi) div 65535"
proof (induction n arbitrary: phi)
  case 0
  then have "unat phi < 65535" by (simp add: CLK_PHI_MAX_def word_less_nat_alt)
  then show ?case by simp
next
  case (Suc n)
  obtain p w where a: "clk_advance phi dphi = (p, w)" by (cases "clk_advance phi dphi")
  have pu: "unat p = (unat phi + unat dphi) mod 65535"
    and wu: "(if w then 1 else 0) = (unat phi + unat dphi) div 65535"
    using clk_advance_unat(1,3) [OF Suc.prems assms] a by simp_all
  have "unat p < 65535" using pu by simp
  then have pl: "p < CLK_PHI_MAX" by (simp add: CLK_PHI_MAX_def word_less_nat_alt)
  obtain p' w' where r: "clk_run n p dphi = (p', w')" by (cases "clk_run n p dphi")
  have ih: "unat p' = (unat p + n * unat dphi) mod 65535" "w' = (unat p + n * unat dphi) div 65535"
    using Suc.IH [OF pl] r by simp_all
  let ?t = "unat phi + unat dphi"
  have e: "unat phi + Suc n * unat dphi = ?t + n * unat dphi" by simp
  have m: "(?t mod 65535 + n * unat dphi) mod 65535 = (?t + n * unat dphi) mod 65535"
    by (simp add: mod_add_left_eq)
  have dv: "(?t mod 65535 + n * unat dphi) div 65535 + ?t div 65535 = (?t + n * unat dphi) div 65535"
    by (rule div_carry)
  show ?case
    using a r ih pu wu m dv unfolding e by (simp del: mult_Suc)
qed

lemma real_div_lower: "x < w * 65535 + 65535 \<Longrightarrow> x / 65535 - 1 \<le> (w::real)"
  by simp

lemma real_div_upper: "w * 65535 \<le> x \<Longrightarrow> (w::real) \<le> x / 65535"
  by simp

lemma rate_limit:
  fixes p d :: nat
  shows "(\<lambda>n. real ((p + n * d) div 65535) / real n) \<longlonglongrightarrow> real d / 65535"
proof (rule real_tendsto_sandwich)
  let ?w = "\<lambda>n. (p + n * d) div 65535"
  let ?lo = "\<lambda>n. real d / 65535 + (real p / 65535 - 1) / real n"
  let ?hi = "\<lambda>n. real d / 65535 + (real p / 65535) / real n"
  have up: "real (?w n) * 65535 \<le> real p + real n * real d" for n
  proof -
    have "?w n * 65535 \<le> p + n * d" by simp
    then have "real (?w n * 65535) \<le> real (p + n * d)" by (rule of_nat_mono)
    then show ?thesis by simp
  qed
  have lo: "real p + real n * real d < real (?w n) * 65535 + 65535" for n
  proof -
    have "p + n * d < ?w n * 65535 + 65535"
      using mod_less_divisor [of 65535 "p + n * d"] div_mult_mod_eq [of "p + n * d" 65535]
      by linarith
    then have "real (p + n * d) < real (?w n * 65535 + 65535)" by (rule of_nat_less_iff [THEN iffD2])
    then show ?thesis by simp
  qed
  show "\<forall>\<^sub>F n in sequentially. ?lo n \<le> real (?w n) / real n"
  proof (rule eventually_sequentiallyI [of 1])
    fix n :: nat assume "1 \<le> n"
    then have n: "0 < real n" by simp
    have "?lo n = ((real p + real n * real d) / 65535 - 1) / real n"
      using n by (simp add: field_simps)
    also have "\<dots> \<le> real (?w n) / real n"
    proof (rule divide_right_mono)
      show "(real p + real n * real d) / 65535 - 1 \<le> real (?w n)"
        using lo [of n] by (rule real_div_lower)
      show "0 \<le> real n" by simp
    qed
    finally show "?lo n \<le> real (?w n) / real n" .
  qed
  show "\<forall>\<^sub>F n in sequentially. real (?w n) / real n \<le> ?hi n"
  proof (rule eventually_sequentiallyI [of 1])
    fix n :: nat assume "1 \<le> n"
    then have n: "0 < real n" by simp
    have "real (?w n) / real n \<le> ((real p + real n * real d) / 65535) / real n"
    proof (rule divide_right_mono)
      show "real (?w n) \<le> (real p + real n * real d) / 65535"
        using up [of n] by (rule real_div_upper)
      show "0 \<le> real n" by simp
    qed
    also have "\<dots> = ?hi n"
      using n by (simp add: field_simps)
    finally show "real (?w n) / real n \<le> ?hi n" .
  qed
  have z: "(\<lambda>n. c / real n) \<longlonglongrightarrow> 0" for c :: real
    by (rule lim_const_over_n)
  show "?lo \<longlonglongrightarrow> real d / 65535"
    using tendsto_add [OF tendsto_const z, of "real d / 65535" "real p / 65535 - 1"] by simp
  show "?hi \<longlonglongrightarrow> real d / 65535"
    using tendsto_add [OF tendsto_const z, of "real d / 65535" "real p / 65535"] by simp
qed

text \<open>
  C3. Let the increment be set by \<^verbatim>\<open>CLKSetCFreq(cfreq)\<close> with \<open>cfreq \<le> FSAMPLE_CHZ\<close> and
  let the phase be below \<open>CLK_PHI_MAX\<close>. Then the increment is the truncated quotient
  and is at most \<open>CLK_PHI_MAX\<close>; a tick outside Crackle mode advances the clock once and
  leaves the phase below \<open>CLK_PHI_MAX\<close>; the phase wraps exactly when the sum reaches
  \<open>CLK_PHI_MAX\<close>, and then the new phase is the sum minus \<open>CLK_PHI_MAX\<close>; \<open>n\<close> advances
  in a row wrap \<open>(clk_phi + n * clk_dphi) div CLK_PHI_MAX\<close> times, so the wraps per tick
  tend to \<open>clk_dphi / CLK_PHI_MAX\<close>.
\<close>

theorem clock_phase_invariant:
  assumes "cfreq \<le> FSAMPLE_CHZ" and "clk_dphi s = CLKSetCFreq cfreq"
    and "clk_phi s < CLK_PHI_MAX" and "noise_mode s \<noteq> NOISE_MODE_CRACKLE"
    and "Controller env inp s = Inr (s', evs)"
  shows "unat (clk_dphi s) = (unat cfreq * unat CLK_PHI_MAX) div unat FSAMPLE_CHZ \<and>
     clk_dphi s \<le> CLK_PHI_MAX \<and>
     clk_phi s' < CLK_PHI_MAX \<and>
     clk_advance (clk_phi s) (clk_dphi s) =
       (clk_phi s', unat CLK_PHI_MAX \<le> unat (clk_phi s) + unat (clk_dphi s)) \<and>
     unat (clk_phi s') =
       (if unat CLK_PHI_MAX \<le> unat (clk_phi s) + unat (clk_dphi s)
        then unat (clk_phi s) + unat (clk_dphi s) - unat CLK_PHI_MAX
        else unat (clk_phi s) + unat (clk_dphi s)) \<and>
     fst (clk_run n (clk_phi s) (clk_dphi s)) < CLK_PHI_MAX \<and>
     snd (clk_run n (clk_phi s) (clk_dphi s)) =
       (unat (clk_phi s) + n * unat (clk_dphi s)) div unat CLK_PHI_MAX \<and>
     (\<lambda>n. real (snd (clk_run n (clk_phi s) (clk_dphi s))) / real n)
       \<longlonglongrightarrow> real (unat (clk_dphi s)) / real (unat CLK_PHI_MAX)"
proof -
  have M: "unat CLK_PHI_MAX = 65535" and F: "unat FSAMPLE_CHZ = 1666667"
    by (simp_all add: CLK_PHI_MAX_def FSAMPLE_CHZ_def)
  have d: "clk_dphi s \<le> CLK_PHI_MAX"
    unfolding assms(2) using assms(1) by (rule CLKSetCFreq_le)
  have du: "unat (clk_dphi s) = (unat cfreq * 65535) div 1666667"
    unfolding assms(2) using assms(1) by (rule CLKSetCFreq_unat)
  note adv = clk_advance_unat [OF assms(3) d]
  from assms(5) obtain sn where n: "noise_step inp s = Inr sn" and ph: "clk_phi s' = clk_phi sn"
    using Controller_effect(5) [OF assms(5), of 0] by auto
  have p': "clk_phi s' = fst (clk_advance (clk_phi s) (clk_dphi s))"
    using noise_step_clock(1) [OF assms(4) n] ph by simp
  have u': "unat (clk_phi s') = (unat (clk_phi s) + unat (clk_dphi s)) mod 65535"
    unfolding p' by (rule adv(1))
  then have "unat (clk_phi s') < 65535" by simp
  then have lt: "clk_phi s' < CLK_PHI_MAX" by (simp add: CLK_PHI_MAX_def word_less_nat_alt)
  have pu: "unat (clk_phi s) < 65535" and dd: "unat (clk_dphi s) \<le> 65535"
    using assms(3) d by (simp_all add: CLK_PHI_MAX_def word_less_nat_alt word_le_nat_alt)
  have v: "unat (clk_phi s') =
       (if 65535 \<le> unat (clk_phi s) + unat (clk_dphi s)
        then unat (clk_phi s) + unat (clk_dphi s) - 65535
        else unat (clk_phi s) + unat (clk_dphi s))"
    unfolding u' using pu dd by (simp add: mod_if le_mod_geq)
  have pr: "clk_advance (clk_phi s) (clk_dphi s) =
       (clk_phi s', 65535 \<le> unat (clk_phi s) + unat (clk_dphi s))"
    using p' adv(2) by (simp add: prod_eq_iff)
  note run = clk_run_unat [OF d assms(3), of n]
  have "unat (fst (clk_run n (clk_phi s) (clk_dphi s))) < 65535" using run by simp
  then have rl: "fst (clk_run n (clk_phi s) (clk_dphi s)) < CLK_PHI_MAX"
    by (simp add: CLK_PHI_MAX_def word_less_nat_alt)
  have "(\<lambda>n. real ((unat (clk_phi s) + n * unat (clk_dphi s)) div 65535) / real n)
       \<longlonglongrightarrow> real (unat (clk_dphi s)) / 65535"
    by (rule rate_limit)
  moreover have "\<And>k. snd (clk_run k (clk_phi s) (clk_dphi s)) = (unat (clk_phi s) + k * unat (clk_dphi s)) div 65535"
    using clk_run_unat [OF d assms(3)] by simp
  ultimately have lim: "(\<lambda>n. real (snd (clk_run n (clk_phi s) (clk_dphi s))) / real n)
       \<longlonglongrightarrow> real (unat (clk_dphi s)) / 65535"
    by simp
  show ?thesis
    unfolding M F using du d lt pr v rl run lim by simp
qed

text \<open>C3, at the state after \<^verbatim>\<open>Start\<close>, with seven advances.\<close>

theorem clock_phase_invariant_witness:
  "FSAMPLE_CHZ \<le> FSAMPLE_CHZ \<and>
   clk_dphi (power_on 5) = CLKSetCFreq FSAMPLE_CHZ \<and>
   clk_phi (power_on 5) < CLK_PHI_MAX \<and>
   noise_mode (power_on 5) \<noteq> NOISE_MODE_CRACKLE \<and>
   (\<exists>s' evs.
      Controller probe (tick_free 0 100) (power_on 5) = Inr (s', evs) \<and>
      clk_phi s' < CLK_PHI_MAX \<and>
      snd (clk_run 7 (clk_phi (power_on 5)) (clk_dphi (power_on 5))) = 7)"
proof -
  let ?s = "power_on 5"
  obtain s' evs where a: "Controller probe (tick_free 0 100) ?s = Inr (s', evs)"
    using start_returns [of probe "tick_free 0 100" 5] by blast
  have h1: "FSAMPLE_CHZ \<le> FSAMPLE_CHZ" by simp
  have h2: "clk_dphi ?s = CLKSetCFreq FSAMPLE_CHZ" by (simp add: start_facts CLKSetCFreq_full)
  have h3: "clk_phi ?s < CLK_PHI_MAX" by (simp add: start_facts CLK_PHI_MAX_def)
  have h4: "noise_mode ?s \<noteq> NOISE_MODE_CRACKLE"
    by (simp add: start_facts NOISE_MODE_BITFLIP_def NOISE_MODE_CRACKLE_def)
  show ?thesis
    using h1 h2 h3 h4 a clock_phase_invariant [OF h1 h2 h3 h4 a, of 7]
    by (simp add: start_facts CLK_PHI_MAX_def CLKSetCFreq_full)
qed

section \<open>BitFlip\<close>

lemma bitflip_xor:
  "(bitflip inp n + word_of_int NOISE_VALUE_MAX) XOR (n + word_of_int NOISE_VALUE_MAX)
     = word_of_int (push_bit (nat (rnd_bit inp)) 1)"
  by (simp add: bitflip_def Let_def xor.commute xor.left_commute)

lemma bit_diff:
  fixes x y :: "16 word"
  assumes "x XOR y = push_bit k 1" "k < 12"
  shows "(bit x j \<noteq> bit y j) = (j = k)"
proof -
  have "bit (x XOR y) j = (j = k)"
    unfolding assms(1) using assms(2) by (auto simp: bit_exp_iff possible_bit_word)
  then show ?thesis by (simp add: bit_xor_iff)
qed

lemma biased_range:
  fixes n :: "16 word"
  assumes "- 2047 \<le> sint n" "sint n \<le> 2048"
  shows "uint (n + 2047) = sint n + 2047"
proof -
  have "n + 2047 = word_of_int (sint n + 2047)" by simp
  then show ?thesis using assms uint_u16 [of "sint n + 2047"] by simp
qed

lemma xor_bit_lt:
  fixes b :: "16 word"
  assumes "uint b < 4096" "k < 12"
  shows "uint (b XOR push_bit k 1) < 4096"
proof -
  have "(2::int) ^ k < 2 ^ 12"
    using power_strict_increasing [OF assms(2), of "2::int"] by simp
  moreover have "(push_bit k 1 :: 16 word) = word_of_int (2 ^ k)" by simp
  ultimately have p: "uint (push_bit k 1 :: 16 word) < 2 ^ 12"
    using uint_u16 [of "2 ^ k"] by simp
  have "uint (b XOR push_bit k 1) = uint b XOR uint (push_bit k 1 :: 16 word)"
    by (simp add: unsigned_xor_eq)
  moreover have "uint b XOR uint (push_bit k 1 :: 16 word) < 2 ^ 12"
    using assms(1) p by (intro XOR_upper) simp_all
  ultimately show ?thesis by simp
qed

lemma unbias:
  fixes b :: "16 word"
  assumes u: "uint b < 4096"
  shows "sint (b - 2047) = uint b - 2047"
proof -
  have "b - 2047 = word_of_int (uint b - 2047)" by simp
  then show ?thesis using u sint_i16 [of "uint b - 2047"] by simp
qed

lemma sint_small_uint:
  fixes b :: "16 word"
  assumes "uint b < 4096"
  shows "sint b = uint b"
proof -
  have "b = word_of_int (uint b)" by simp
  then have "sint b = sint (word_of_int (uint b) :: 16 word)" by simp
  also have "\<dots> = uint b" using assms uint_ge_0 [of b] by (intro sint_i16) linarith+
  finally show ?thesis .
qed

lemma bitflip_biased:
  assumes "- 2047 \<le> sint n" "sint n \<le> 2048" "0 \<le> rnd_bit inp" "rnd_bit inp < 12"
  shows "uint (n + 2047) < 4096" and "uint (bitflip inp n + 2047) < 4096"
    and "- 2047 \<le> sint (bitflip inp n) \<and> sint (bitflip inp n) \<le> 2048"
proof -
  let ?k = "nat (rnd_bit inp)"
  have k: "?k < 12" using assms(3,4) by simp
  show b: "uint (n + 2047) < 4096" using biased_range [OF assms(1,2)] assms(2) by simp
  then have lt: "uint ((n + 2047) XOR push_bit ?k 1) < 4096" using k by (rule xor_bit_lt)
  have f: "bitflip inp n = ((n + 2047) XOR push_bit ?k 1) - 2047"
    by (simp add: bitflip_def Let_def NOISE_VALUE_MAX_def)
  show "uint (bitflip inp n + 2047) < 4096" unfolding f using lt by simp
  show "- 2047 \<le> sint (bitflip inp n) \<and> sint (bitflip inp n) \<le> 2048"
    unfolding f using unbias [OF lt] lt by simp
qed

text \<open>
  The two-channel file: in BitFlip mode, on a tick whose clock wraps, the new noise
  value is the old one biased by \<open>NOISE_VALUE_MAX\<close>, with one bit \<open>k < 12\<close> flipped, and
  the bias removed.
\<close>

lemma bitflip_wrap:
  assumes "draws_ok inp" and "noise_mode s = NOISE_MODE_BITFLIP"
    and "Controller env inp s = Inr (s', evs)"
    and "snd (clk_advance (clk_phi s) (clk_dphi s))"
  shows "\<exists>k<12.
      noise s' = ((noise s + word_of_int NOISE_VALUE_MAX) XOR push_bit k 1) - word_of_int NOISE_VALUE_MAX \<and>
      (noise s' + word_of_int NOISE_VALUE_MAX) XOR (noise s + word_of_int NOISE_VALUE_MAX) = push_bit k 1 \<and>
      (\<forall>j. (bit (noise s' + word_of_int NOISE_VALUE_MAX) j \<noteq> bit (noise s + word_of_int NOISE_VALUE_MAX) j) = (j = k)) \<and>
      (- NOISE_VALUE_MAX \<le> sint (noise s) \<and> sint (noise s) \<le> NOISE_VALUE_MAX + 1 \<longrightarrow>
         0 \<le> sint (noise s + word_of_int NOISE_VALUE_MAX) \<and> sint (noise s + word_of_int NOISE_VALUE_MAX) < 4096 \<and>
         0 \<le> sint (noise s' + word_of_int NOISE_VALUE_MAX) \<and> sint (noise s' + word_of_int NOISE_VALUE_MAX) < 4096)"
proof -
  let ?k = "nat (rnd_bit inp)"
  have r: "0 \<le> rnd_bit inp" "rnd_bit inp < 12" using assms(1) by (simp_all add: draws_ok_def)
  then have k: "?k < 12" by simp
  have nc: "noise_mode s \<noteq> NOISE_MODE_CRACKLE"
    using assms(2) by (simp add: NOISE_MODE_BITFLIP_def NOISE_MODE_CRACKLE_def)
  from assms(3) obtain sn where n: "noise_step inp s = Inr sn" and e: "noise s' = noise sn"
    using Controller_effect(5) [OF assms(3), of 0] by auto
  have v: "noise s' = bitflip inp (noise s)"
    using noise_step_clock(2) [OF nc n] assms(2,4) e by simp
  have w: "(word_of_int (push_bit ?k 1) :: 16 word) = push_bit ?k 1" by simp
  have x: "(noise s' + word_of_int NOISE_VALUE_MAX) XOR (noise s + word_of_int NOISE_VALUE_MAX) = push_bit ?k 1"
    unfolding v using bitflip_xor [of inp "noise s"] w by (simp only:)
  have d: "\<forall>j. (bit (noise s' + word_of_int NOISE_VALUE_MAX) j \<noteq> bit (noise s + word_of_int NOISE_VALUE_MAX) j) = (j = ?k)"
    using bit_diff [OF x k] by blast
  have f: "noise s' = ((noise s + word_of_int NOISE_VALUE_MAX) XOR push_bit ?k 1) - word_of_int NOISE_VALUE_MAX"
    unfolding v by (simp add: bitflip_def Let_def)
  have g: "0 \<le> sint (noise s + word_of_int NOISE_VALUE_MAX) \<and> sint (noise s + word_of_int NOISE_VALUE_MAX) < 4096 \<and>
         0 \<le> sint (noise s' + word_of_int NOISE_VALUE_MAX) \<and> sint (noise s' + word_of_int NOISE_VALUE_MAX) < 4096"
    if "- NOISE_VALUE_MAX \<le> sint (noise s) \<and> sint (noise s) \<le> NOISE_VALUE_MAX + 1"
  proof -
    have a: "- 2047 \<le> sint (noise s)" "sint (noise s) \<le> 2048"
      using that by (simp_all add: NOISE_VALUE_MAX_def)
    note b = bitflip_biased(1,2) [OF a r]
    show ?thesis
      unfolding v NOISE_VALUE_MAX_def using b sint_small_uint [OF b(1)] sint_small_uint [OF b(2)] by simp
  qed
  show ?thesis using k f x d g by blast
qed

text \<open>The first version: every tick of BitFlip mode flips one bit of the value itself.\<close>

lemma Controller_v0_noise:
  assumes "Controller_v0 env inp t = Inr (t', evs)"
  shows "noise_v0 t' = noise_v0 (noise_step_v0 inp t)"
  using assms
  by (auto simp: Controller_v0_def channel_step_v0_def Let_def split: sum.splits if_splits)

lemma uint_nonneg_sint:
  fixes n :: "16 word"
  assumes "0 \<le> sint n"
  shows "uint n = sint n"
proof -
  have "sint n < 32768" using sint_lt [of n] by simp
  moreover have "n = word_of_int (sint n)" by simp
  then have "uint n = uint (word_of_int (sint n) :: 16 word)" by simp
  ultimately show ?thesis using assms uint_u16 [of "sint n"] by simp
qed

lemma bitflip_v0:
  assumes "draws_ok_v0 inp" and "noise_mode_v0 t = NOISE_MODE_BITFLIP"
    and "Controller_v0 env inp t = Inr (t', evs)"
  shows "\<exists>k<12.
      noise_v0 t' = noise_v0 t XOR push_bit k 1 \<and>
      (\<forall>j. (bit (noise_v0 t') j \<noteq> bit (noise_v0 t) j) = (j = k)) \<and>
      (0 \<le> sint (noise_v0 t) \<and> sint (noise_v0 t) \<le> NOISE_VALUE_MAX_v0 \<longrightarrow>
         0 \<le> sint (noise_v0 t') \<and> sint (noise_v0 t') \<le> NOISE_VALUE_MAX_v0)"
proof -
  let ?k = "nat (rnd_bit inp)"
  have "0 \<le> rnd_bit inp" "rnd_bit inp < 12" using assms(1) by (simp_all add: draws_ok_v0_def)
  then have k: "?k < 12" by simp
  have v: "noise_v0 t' = noise_v0 t XOR push_bit ?k 1"
    using Controller_v0_noise [OF assms(3)] assms(2) by (simp add: noise_step_v0_def Let_def)
  have "noise_v0 t' XOR noise_v0 t = push_bit ?k 1"
    unfolding v by (simp add: xor.commute xor.left_commute)
  then have d: "\<forall>j. (bit (noise_v0 t') j \<noteq> bit (noise_v0 t) j) = (j = ?k)"
    using bit_diff [OF _ k] by blast
  have g: "0 \<le> sint (noise_v0 t') \<and> sint (noise_v0 t') \<le> NOISE_VALUE_MAX_v0"
    if "0 \<le> sint (noise_v0 t) \<and> sint (noise_v0 t) \<le> NOISE_VALUE_MAX_v0"
  proof -
    have "uint (noise_v0 t) < 4096"
      using that uint_nonneg_sint [of "noise_v0 t"] by (simp add: NOISE_VALUE_MAX_v0_def)
    then have lt: "uint (noise_v0 t') < 4096" unfolding v using k by (rule xor_bit_lt)
    then show ?thesis using sint_small_uint [OF lt] by (simp add: NOISE_VALUE_MAX_v0_def)
  qed
  show ?thesis using k v d g by blast
qed

text \<open>
  C4, as the claim states it, fails in two ways. In the two-channel file the biased
  value can be negative: the state \<open>overdriven_state\<close> is in BitFlip mode with the noise
  value \<open>-30162\<close> (left by a Crackle burst with \<open>eta = 1\<close> at clock parameter 62), its
  next tick wraps, and the biased value the flip works on is \<open>-28115\<close>. In the first
  version there is no bias and no test of the clock: a tick from the state after
  \<^verbatim>\<open>Start\<close>, whose clock does not wrap, changes the noise from 0 to 1, and
  \<open>0 + NOISE_VALUE_MAX\<close> and \<open>1 + NOISE_VALUE_MAX\<close> differ in thirteen bits.
\<close>

theorem bitflip_bias_negative_or_absent:
  "map_option (\<lambda>s. (noise_mode s, sint (noise s), sint (noise s + word_of_int NOISE_VALUE_MAX),
       snd (clk_advance (clk_phi s) (clk_dphi s)))) overdriven_state
     = Some (NOISE_MODE_BITFLIP, - 30162, - 28115, True) \<and>
   noise_mode_v0 (power_on_v0 0) = NOISE_MODE_BITFLIP \<and> draws_ok_v0 (tick_free 0 0) \<and>
   clk_phi_v0 (power_on_v0 0) + clk_dphi_v0 (power_on_v0 0) < CLK_PHI_MAX_v0 \<and>
   map_sum id (\<lambda>r. (noise_v0 (fst r) + word_of_int NOISE_VALUE_MAX_v0) XOR
                    (noise_v0 (power_on_v0 0) + word_of_int NOISE_VALUE_MAX_v0))
     (Controller_v0 probe (tick_free 0 0) (power_on_v0 0)) = Inr 8191"
  by (simp add: overdriven_state_def after_tick_def tick_burst_def power_on_def v0_defs ui_defs
      tick_defs probe_def Proportion_spec_def signed_divide_int_def)

text \<open>
  C4, amended. In the two-channel file, in BitFlip mode, on a tick whose clock wraps,
  the new noise value is the old one biased by \<open>NOISE_VALUE_MAX\<close>, with one bit \<open>k < 12\<close>
  flipped, and the bias removed; so the biased values before and after differ in bit \<open>k\<close>
  and in no other bit. When the old value lies in
  \<open>[-NOISE_VALUE_MAX, NOISE_VALUE_MAX + 1]\<close> both biased values are non-negative and below
  \<open>2 ^ 12\<close>. In the first version, in BitFlip mode, every tick flips one bit \<open>k < 12\<close> of
  the noise value itself, and a value in \<open>[0, NOISE_VALUE_MAX]\<close> (there 4095) stays in it.
\<close>

theorem bitflip_one_bit:
  "(draws_ok inp \<and> noise_mode s = NOISE_MODE_BITFLIP \<and> Controller env inp s = Inr (s', evs) \<and>
    snd (clk_advance (clk_phi s) (clk_dphi s)) \<longrightarrow>
    (\<exists>k<12.
      noise s' = ((noise s + word_of_int NOISE_VALUE_MAX) XOR push_bit k 1) - word_of_int NOISE_VALUE_MAX \<and>
      (noise s' + word_of_int NOISE_VALUE_MAX) XOR (noise s + word_of_int NOISE_VALUE_MAX) = push_bit k 1 \<and>
      (\<forall>j. (bit (noise s' + word_of_int NOISE_VALUE_MAX) j \<noteq> bit (noise s + word_of_int NOISE_VALUE_MAX) j) = (j = k)) \<and>
      (- NOISE_VALUE_MAX \<le> sint (noise s) \<and> sint (noise s) \<le> NOISE_VALUE_MAX + 1 \<longrightarrow>
         0 \<le> sint (noise s + word_of_int NOISE_VALUE_MAX) \<and> sint (noise s + word_of_int NOISE_VALUE_MAX) < 4096 \<and>
         0 \<le> sint (noise s' + word_of_int NOISE_VALUE_MAX) \<and> sint (noise s' + word_of_int NOISE_VALUE_MAX) < 4096))) \<and>
   (draws_ok_v0 inp0 \<and> noise_mode_v0 t = NOISE_MODE_BITFLIP \<and> Controller_v0 env0 inp0 t = Inr (t', evs0) \<longrightarrow>
    (\<exists>k<12.
      noise_v0 t' = noise_v0 t XOR push_bit k 1 \<and>
      (\<forall>j. (bit (noise_v0 t') j \<noteq> bit (noise_v0 t) j) = (j = k)) \<and>
      (0 \<le> sint (noise_v0 t) \<and> sint (noise_v0 t) \<le> NOISE_VALUE_MAX_v0 \<longrightarrow>
         0 \<le> sint (noise_v0 t') \<and> sint (noise_v0 t') \<le> NOISE_VALUE_MAX_v0)))"
proof (intro conjI impI)
  assume h: "draws_ok inp \<and> noise_mode s = NOISE_MODE_BITFLIP \<and> Controller env inp s = Inr (s', evs) \<and>
    snd (clk_advance (clk_phi s) (clk_dphi s))"
  show "\<exists>k<12.
      noise s' = ((noise s + word_of_int NOISE_VALUE_MAX) XOR push_bit k 1) - word_of_int NOISE_VALUE_MAX \<and>
      (noise s' + word_of_int NOISE_VALUE_MAX) XOR (noise s + word_of_int NOISE_VALUE_MAX) = push_bit k 1 \<and>
      (\<forall>j. (bit (noise s' + word_of_int NOISE_VALUE_MAX) j \<noteq> bit (noise s + word_of_int NOISE_VALUE_MAX) j) = (j = k)) \<and>
      (- NOISE_VALUE_MAX \<le> sint (noise s) \<and> sint (noise s) \<le> NOISE_VALUE_MAX + 1 \<longrightarrow>
         0 \<le> sint (noise s + word_of_int NOISE_VALUE_MAX) \<and> sint (noise s + word_of_int NOISE_VALUE_MAX) < 4096 \<and>
         0 \<le> sint (noise s' + word_of_int NOISE_VALUE_MAX) \<and> sint (noise s' + word_of_int NOISE_VALUE_MAX) < 4096)"
    by (rule bitflip_wrap [of inp s env s' evs]) (use h in blast)+
next
  assume h: "draws_ok_v0 inp0 \<and> noise_mode_v0 t = NOISE_MODE_BITFLIP \<and> Controller_v0 env0 inp0 t = Inr (t', evs0)"
  show "\<exists>k<12.
      noise_v0 t' = noise_v0 t XOR push_bit k 1 \<and>
      (\<forall>j. (bit (noise_v0 t') j \<noteq> bit (noise_v0 t) j) = (j = k)) \<and>
      (0 \<le> sint (noise_v0 t) \<and> sint (noise_v0 t) \<le> NOISE_VALUE_MAX_v0 \<longrightarrow>
         0 \<le> sint (noise_v0 t') \<and> sint (noise_v0 t') \<le> NOISE_VALUE_MAX_v0)"
    by (rule bitflip_v0 [of inp0 t env0 t' evs0]) (use h in blast)+
qed

text \<open>
  C4 amended, at the states after \<^verbatim>\<open>Start\<close> of the two versions, with bit 3 drawn; in
  the two-channel file every tick wraps there.
\<close>

theorem bitflip_one_bit_witness:
  "draws_ok (tick_free 3 100) \<and>
   noise_mode (power_on 5) = NOISE_MODE_BITFLIP \<and>
   snd (clk_advance (clk_phi (power_on 5)) (clk_dphi (power_on 5))) \<and>
   (\<exists>s' evs.
      Controller probe (tick_free 3 100) (power_on 5) = Inr (s', evs) \<and>
      (\<exists>k<12. (noise s' + word_of_int NOISE_VALUE_MAX) XOR
                (noise (power_on 5) + word_of_int NOISE_VALUE_MAX) = push_bit k 1)) \<and>
   draws_ok_v0 (tick_free 3 100) \<and>
   noise_mode_v0 (power_on_v0 5) = NOISE_MODE_BITFLIP \<and>
   (\<exists>t' evs0.
      Controller_v0 probe (tick_free 3 100) (power_on_v0 5) = Inr (t', evs0) \<and>
      (\<exists>k<12. noise_v0 t' = noise_v0 (power_on_v0 5) XOR push_bit k 1))"
proof -
  let ?s = "power_on 5"
  let ?t = "power_on_v0 5"
  obtain s' evs where a: "Controller probe (tick_free 3 100) ?s = Inr (s', evs)"
    using start_returns [of probe "tick_free 3 100" 5] by blast
  have "\<exists>t' evs0. Controller_v0 probe (tick_free 3 100) ?t = Inr (t', evs0)"
    by (simp add: v0_defs tick_defs NOISE_MODE_BITFLIP_def FILTER_MODE_OFF_def FILTER_MODE_LP_def
        FILTER_MODE_BP_def)
  then obtain t' evs0 where b: "Controller_v0 probe (tick_free 3 100) ?t = Inr (t', evs0)" by blast
  have h1: "draws_ok (tick_free 3 100)" by (simp add: tick_defs CLK_PHI_MAX_def)
  have h2: "noise_mode ?s = NOISE_MODE_BITFLIP" by (rule start_facts)
  have h4: "snd (clk_advance (clk_phi ?s) (clk_dphi ?s))"
    by (simp add: start_facts clk_advance_def CLK_PHI_MAX_def)
  have g1: "draws_ok_v0 (tick_free 3 100)" by (simp add: v0_defs tick_defs)
  have g2: "noise_mode_v0 ?t = NOISE_MODE_BITFLIP" by (simp add: v0_defs)
  note T = bitflip_one_bit [where inp = "tick_free 3 100" and s = ?s and env = probe and s' = s'
      and evs = evs and ?inp0.0 = "tick_free 3 100" and t = ?t and ?env0.0 = probe and t' = t'
      and ?evs0.0 = evs0]
  from T h1 h2 a h4 obtain k where
    k: "k < 12" "(noise s' + word_of_int NOISE_VALUE_MAX) XOR (noise ?s + word_of_int NOISE_VALUE_MAX) = push_bit k 1"
    by blast
  from T g1 g2 b obtain m where m: "m < 12" "noise_v0 t' = noise_v0 ?t XOR push_bit m 1"
    by blast
  have e: "\<exists>s' evs. Controller probe (tick_free 3 100) ?s = Inr (s', evs) \<and>
      (\<exists>k<12. (noise s' + word_of_int NOISE_VALUE_MAX) XOR (noise ?s + word_of_int NOISE_VALUE_MAX) = push_bit k 1)"
    using a k by blast
  have f: "\<exists>t' evs0. Controller_v0 probe (tick_free 3 100) ?t = Inr (t', evs0) \<and>
      (\<exists>k<12. noise_v0 t' = noise_v0 ?t XOR push_bit k 1)"
    using b m by blast
  from h1 h2 h4 e g1 g2 f show ?thesis by (intro conjI)
qed

section \<open>The range of the noise value\<close>

lemma white_range:
  assumes "- NOISE_VALUE_MAX \<le> rnd_white inp" "rnd_white inp < NOISE_VALUE_MAX"
  shows "sint (white inp) = rnd_white inp"
  unfolding white_def using assms by (intro sint_i16) (simp_all add: NOISE_VALUE_MAX_def)

lemma decay_range:
  fixes n :: "16 word"
  assumes "- 2047 \<le> sint n" "sint n \<le> 2048"
  shows "- 2047 \<le> sint (word_of_int ((sint n * 3) sdiv 4) :: 16 word) \<and>
         sint (word_of_int ((sint n * 3) sdiv 4) :: 16 word) \<le> 2047"
proof -
  have a: "\<bar>(sint n * 3) sdiv 4\<bar> = \<bar>sint n * 3\<bar> div 4"
    by (simp add: signed_divide_int_def abs_mult sgn_if)
  have "\<bar>sint n * 3\<bar> \<le> 6144" using assms by simp
  then have "\<bar>sint n * 3\<bar> div 4 \<le> 6144 div 4" by (rule zdiv_mono1) simp
  then have b: "\<bar>(sint n * 3) sdiv 4\<bar> \<le> 1536" using a by simp
  then have "sint (word_of_int ((sint n * 3) sdiv 4) :: 16 word) = (sint n * 3) sdiv 4"
    by (intro sint_i16) simp_all
  moreover have "- 2047 \<le> (sint n * 3) sdiv 4 \<and> (sint n * 3) sdiv 4 \<le> 2047"
    using b by (rule abs_bound_int) simp
  ultimately show ?thesis by (simp only:)
qed

lemma burst_range:
  fixes a :: "16 word"
  assumes "0 \<le> sint a"
  shows "\<bar>sint (word_of_int
            ((sint (word_of_int (sint (if sint a > 8 then 8 else a) * (if r > 0 then 1 else - 1)) :: 16 word)
              * NOISE_VALUE_MAX) sdiv 8) :: 16 word)\<bar> \<le> 2047"
proof -
  define a1 :: "16 word" where "a1 = (if sint a > 8 then 8 else a)"
  have a1: "0 \<le> sint a1" "sint a1 \<le> 8" using assms by (auto simp: a1_def)
  define a2 :: "16 word" where "a2 = word_of_int (sint a1 * (if r > 0 then 1 else - 1))"
  have "sint a2 = sint a1 * (if r > 0 then 1 else - 1)"
    unfolding a2_def using a1 by (intro sint_i16) auto
  then have a2: "\<bar>sint a2\<bar> \<le> 8" using a1 by auto
  have e: "\<bar>(sint a2 * 2047) sdiv 8\<bar> = \<bar>sint a2 * 2047\<bar> div 8"
    by (simp add: signed_divide_int_def abs_mult sgn_if)
  have "\<bar>sint a2 * 2047\<bar> \<le> 8 * 2047" using a2 by (simp add: abs_mult)
  then have "\<bar>sint a2 * 2047\<bar> div 8 \<le> (8 * 2047) div 8" by (rule zdiv_mono1) simp
  then have b: "\<bar>(sint a2 * 2047) sdiv 8\<bar> \<le> 2047" using e by simp
  then have "sint (word_of_int ((sint a2 * 2047) sdiv 8) :: 16 word) = (sint a2 * 2047) sdiv 8"
    by (intro sint_i16) simp_all
  then show ?thesis using b unfolding a2_def a1_def NOISE_VALUE_MAX_def by simp
qed

lemma quotient_sint:
  fixes q :: "64 word"
  assumes "q < 32768"
  shows "0 \<le> sint (ucast q :: 16 word)"
proof -
  have u: "uint q < 32768" using assms by (simp add: word_less_def)
  have l: "- 32768 \<le> uint q" using uint_ge_0 [of q] by linarith
  have "(ucast q :: 16 word) = word_of_int (uint q)" by simp
  then have "sint (ucast q :: 16 word) = uint q"
    using sint_i16 [OF l u] by (simp only:)
  then show ?thesis by simp
qed

lemma crackle_range:
  assumes "crackle inp dphi n = Inr n'"
    and "dphi div ucast (word_of_int (rnd_eta inp) :: 16 word) < 32768"
    and "- 2047 \<le> sint n" "sint n \<le> 2048"
  shows "- 2047 \<le> sint n' \<and> sint n' \<le> 2047"
proof (cases "(ucast (word_of_int (rnd_eta inp) :: 16 word) :: 64 word) < dphi")
  case True
  let ?a = "ucast (dphi div ucast (word_of_int (rnd_eta inp) :: 16 word)) :: 16 word"
  have "0 \<le> sint ?a" using assms(2) by (rule quotient_sint)
  then have "\<bar>sint (word_of_int
            ((sint (word_of_int (sint (if sint ?a > 8 then 8 else ?a) * (if rnd_sign inp > 0 then 1 else - 1)) :: 16 word)
              * NOISE_VALUE_MAX) sdiv 8) :: 16 word)\<bar> \<le> 2047"
    by (rule burst_range)
  moreover have "n' = word_of_int
            ((sint (word_of_int (sint (if sint ?a > 8 then 8 else ?a) * (if rnd_sign inp > 0 then 1 else - 1)) :: 16 word)
              * NOISE_VALUE_MAX) sdiv 8)"
    using assms(1) True by (simp add: crackle_def Let_def split: if_splits)
  ultimately have "\<bar>sint n'\<bar> \<le> 2047" by (simp only:)
  then show ?thesis by linarith
next
  case False
  then have "n' = word_of_int ((sint n * 3) sdiv 4)"
    using assms(1) by (simp add: crackle_def Let_def)
  then show ?thesis using decay_range [OF assms(3,4)] by simp
qed

text \<open>
  C5, as the claim states it, is false: in BitFlip mode, from the noise value 0 (inside
  \<open>[-NOISE_VALUE_MAX, NOISE_VALUE_MAX]\<close>) a tick that flips bit 11 gives 2048, above
  \<open>NOISE_VALUE_MAX = 2047\<close>.
\<close>

theorem bitflip_leaves_noise_range:
  "draws_ok \<lparr>Gate = (\<lambda>ch. False), rnd_eta = 0, rnd_sign = 0, rnd_bit = 11, rnd_white = 0\<rparr> \<and>
   noise_mode (power_on 0) = NOISE_MODE_BITFLIP \<and>
   sint (noise (power_on 0)) = 0 \<and>
   map_sum id (\<lambda>r. sint (noise (fst r)))
     (Controller probe \<lparr>Gate = (\<lambda>ch. False), rnd_eta = 0, rnd_sign = 0, rnd_bit = 11, rnd_white = 0\<rparr>
        (power_on 0)) = Inr 2048 \<and>
   \<not> 2048 \<le> NOISE_VALUE_MAX"
  by (simp add: draws_ok_def Controller_def noise_step_def clk_advance_def bitflip_def channel_step_def
      select_tap_def power_on_def Start_eq NoiseLake_instance_def CLKSetCFreq_def FSAMPLE_CHZ_def CLK_PHI_MAX_def
      NOISE_VALUE_MAX_def NOISE_MODE_BITFLIP_def NOISE_MODE_CRACKLE_def FILTER_MODE_OFF_def
      FILTER_MODE_LP_def FILTER_MODE_BP_def Let_def)

text \<open>
  C5, amended. Nothing saturates; the range every mode keeps is
  \<open>[-NOISE_VALUE_MAX, NOISE_VALUE_MAX + 1]\<close>, and outside BitFlip mode a value of at
  most \<open>NOISE_VALUE_MAX\<close> stays so. For a Crackle burst this is stated where the quotient
  \<^verbatim>\<open>clk_dphi / eta\<close> is below \<open>2 ^ 15\<close>, so that the store to the \<^verbatim>\<open>int16_t a\<close> keeps it.
\<close>

theorem noise_range_kept:
  assumes "Controller env inp s = Inr (s', evs)" and "draws_ok inp"
    and "noise_mode s = NOISE_MODE_CRACKLE \<longrightarrow>
           clk_dphi s div ucast (word_of_int (rnd_eta inp) :: 16 word) < 32768"
    and "- NOISE_VALUE_MAX \<le> sint (noise s)" and "sint (noise s) \<le> NOISE_VALUE_MAX + 1"
  shows "- NOISE_VALUE_MAX \<le> sint (noise s') \<and> sint (noise s') \<le> NOISE_VALUE_MAX + 1 \<and>
     (noise_mode s \<noteq> NOISE_MODE_BITFLIP \<and> sint (noise s) \<le> NOISE_VALUE_MAX \<longrightarrow>
        sint (noise s') \<le> NOISE_VALUE_MAX)"
proof -
  have a: "- 2047 \<le> sint (noise s)" "sint (noise s) \<le> 2048"
    using assms(4,5) by (simp_all add: NOISE_VALUE_MAX_def)
  have r: "0 \<le> rnd_bit inp" "rnd_bit inp < 12"
    and w: "- NOISE_VALUE_MAX \<le> rnd_white inp" "rnd_white inp < NOISE_VALUE_MAX"
    using assms(2) by (simp_all add: draws_ok_def)
  from assms(1) obtain sn where n: "noise_step inp s = Inr sn" and e: "noise s' = noise sn"
    using Controller_effect(5) [OF assms(1), of 0] by auto
  show ?thesis
  proof (cases "noise_mode s = NOISE_MODE_CRACKLE")
    case True
    have "crackle inp (clk_dphi s) (noise s) = Inr (noise sn)"
      using True n by (rule noise_step_crackle)
    from crackle_range [OF this _ a] assms(3) True
    show ?thesis unfolding e by (simp add: NOISE_VALUE_MAX_def)
  next
    case False
    note v = noise_step_clock(2) [OF False n]
    show ?thesis
    proof (cases "snd (clk_advance (clk_phi s) (clk_dphi s))")
      case nw: False
      then show ?thesis unfolding e v using assms(4,5) by simp
    next
      case wr: True
      show ?thesis
      proof (cases "noise_mode s = NOISE_MODE_BITFLIP")
        case True
        then show ?thesis
          unfolding e v using wr bitflip_biased(3) [OF a r] by (simp add: NOISE_VALUE_MAX_def)
      next
        case False
        then show ?thesis
          unfolding e v using wr white_range [OF w] w by simp
      qed
    qed
  qed
qed

text \<open>C5 amended, at the Crackle state with \<open>eta = 1000\<close>: a burst of full amplitude.\<close>

theorem noise_range_kept_witness:
  "draws_ok (tick_free 0 100) \<and>
   map_option (\<lambda>s. noise_mode s = NOISE_MODE_CRACKLE \<and>
        clk_dphi s div ucast (word_of_int (rnd_eta (tick_free 0 100)) :: 16 word) < 32768 \<and>
        - NOISE_VALUE_MAX \<le> sint (noise s) \<and> sint (noise s) \<le> NOISE_VALUE_MAX + 1)
     (crackle_state ([] :: int list)) = Some True \<and>
   map_option (\<lambda>s. map_sum id (\<lambda>r. - NOISE_VALUE_MAX \<le> sint (noise (fst r)) \<and>
        sint (noise (fst r)) \<le> NOISE_VALUE_MAX) (Controller probe (tick_free 0 100) s))
     (crackle_state []) = Some (Inr True)"
proof -
  let ?s = "(power_on 5)\<lparr>cursor := 1, noise_mode := NOISE_MODE_CRACKLE\<rparr>"
  have st: "crackle_state ([] :: int list) = Some ?s" by (simp add: crackle_state_eq power_on_def)
  have h2: "draws_ok (tick_free 0 100)" by (simp add: tick_defs CLK_PHI_MAX_def)
  have h3: "noise_mode ?s = NOISE_MODE_CRACKLE \<longrightarrow>
      clk_dphi ?s div ucast (word_of_int (rnd_eta (tick_free 0 100)) :: 16 word) < 32768"
    by (simp add: tick_defs ui_defs power_on_def)
  have h3': "clk_dphi ?s div ucast (word_of_int (rnd_eta (tick_free 0 100)) :: 16 word) < 32768"
    by (simp add: tick_defs ui_defs power_on_def)
  have h4: "- NOISE_VALUE_MAX \<le> sint (noise ?s)" and h5: "sint (noise ?s) \<le> NOISE_VALUE_MAX + 1"
    by (simp_all add: ui_defs NOISE_VALUE_MAX_def power_on_def)
  have "\<exists>r. Controller probe (tick_free 0 100) ?s = Inr r"
    by (simp add: tick_defs ui_defs power_on_def)
  then obtain s' evs where a: "Controller probe (tick_free 0 100) ?s = Inr (s', evs)" by force
  have nb: "noise_mode ?s \<noteq> NOISE_MODE_BITFLIP"
    by (simp add: NOISE_MODE_BITFLIP_def NOISE_MODE_CRACKLE_def)
  from noise_range_kept [OF a h2 h3 h4 h5] nb h5
  have "- NOISE_VALUE_MAX \<le> sint (noise s') \<and> sint (noise s') \<le> NOISE_VALUE_MAX"
    by (simp add: ui_defs NOISE_VALUE_MAX_def power_on_def)
  then show ?thesis
    unfolding st using a h2 h3' h4 h5 by simp
qed

section \<open>The modulo wavefolder\<close>

lemma triangle_nonneg:
  fixes t l :: int
  assumes "0 < l" "0 \<le> t"
  shows "(if even (t div l) then l - t mod l else t mod l) = \<bar>l - t mod (2 * l)\<bar>"
proof -
  have m: "t mod (l * 2) = l * (t div l mod 2) + t mod l"
    by (rule zmod_zmult2_eq) simp
  have r: "0 \<le> t mod l" "t mod l < l" using assms(1) by simp_all
  show ?thesis
  proof (cases "even (t div l)")
    case True
    then have "t div l mod 2 = 0" by (simp add: even_iff_mod_2_eq_zero)
    then have "t mod (2 * l) = t mod l" using m by (simp add: mult.commute)
    then show ?thesis using True r by simp
  next
    case False
    then have "t div l mod 2 = 1" by (simp add: odd_iff_mod_2_eq_one)
    then have "t mod (2 * l) = l + t mod l" using m by (simp add: mult.commute)
    then show ?thesis using False r by simp
  qed
qed

lemma triangle_abs:
  fixes s l :: int
  assumes "0 < l"
  shows "(if even (\<bar>s\<bar> div l) then l - \<bar>s\<bar> mod l else \<bar>s\<bar> mod l) = \<bar>l - s mod (2 * l)\<bar>"
proof (cases "0 \<le> s")
  case True
  then show ?thesis using triangle_nonneg [OF assms, of s] by simp
next
  case False
  then have t: "0 \<le> - s" "\<bar>s\<bar> = - s" by simp_all
  have n: "\<bar>l - (- s) mod (2 * l)\<bar> = \<bar>l - s mod (2 * l)\<bar>"
  proof (cases "s mod (2 * l) = 0")
    case True
    then have "(- s) mod (2 * l) = 0" by (simp add: zmod_zminus1_eq_if)
    then show ?thesis using True by simp
  next
    case False
    then have "(- s) mod (2 * l) = 2 * l - s mod (2 * l)" by (simp add: zmod_zminus1_eq_if)
    then show ?thesis by simp
  qed
  show ?thesis using triangle_nonneg [OF assms t(1)] n unfolding t(2) by simp
qed

lemma woi_sint_diff:
  "(word_of_int (sint (word_of_int a :: 16 word) - b) :: 16 word) = word_of_int (a - b)"
  by simp

lemma WaveFolder_closed:
  assumes l: "0 < sint limit"
    and lo: "- 32768 \<le> sint x + sint limit" and hi: "sint x + sint limit < 32768"
  shows "WaveFolder x limit =
    Inr (word_of_int (\<bar>2 * sint limit - (sint x + sint limit) mod (4 * sint limit)\<bar> - sint limit))"
proof -
  let ?L = "2 * sint limit"
  let ?s = "sint x + sint limit"
  define sg :: "16 word" where "sg = word_of_int ?s"
  define o1 :: "16 word" where "o1 = word_of_int (sint sg smod ?L)"
  define o2 :: "16 word" where "o2 = (if sint o1 < 0 then word_of_int (- sint o1) else o1)"
  define o3 :: "16 word" where
    "o3 = (if (sint sg sdiv ?L) smod 2 = 0 then word_of_int (?L - sint o2) else o2)"
  have W: "WaveFolder x limit = Inr (word_of_int (sint o3 - sint limit))"
    using l unfolding WaveFolder_def Let_def o3_def o2_def o1_def sg_def by simp
  have L: "0 < ?L" using l by simp
  have s: "sint sg = ?s" unfolding sg_def using lo hi by (rule sint_i16)
  have xlo: "- 32768 \<le> sint x" using sint_ge [of x] by simp
  have sl: "- 32767 \<le> ?s" using l xlo by simp
  have ra: "\<bar>?s smod ?L\<bar> = \<bar>?s\<bar> mod ?L" using L by (rule smod_abs)
  have "\<bar>?s\<bar> mod ?L \<le> \<bar>?s\<bar>" by (rule zmod_le_nonneg_dividend) simp
  then have rb: "\<bar>?s smod ?L\<bar> \<le> 32767" using ra sl hi by simp
  have r: "sint o1 = ?s smod ?L"
    unfolding o1_def s using rb by (intro sint_i16) simp_all
  have "sint (word_of_int (- (?s smod ?L)) :: 16 word) = - (?s smod ?L)"
    using rb by (intro sint_i16) simp_all
  then have v2: "sint o2 = \<bar>?s smod ?L\<bar>"
    using r unfolding o2_def by (simp add: abs_if)
  have ev: "((sint sg sdiv ?L) smod 2 = 0) = even (\<bar>?s\<bar> div ?L)"
    unfolding s using L by (rule sdiv_even)
  have e1: "sint o2 = \<bar>?s\<bar> mod ?L" using v2 ra by (simp only:)
  have "(word_of_int (sint o3 - sint limit) :: 16 word) =
      word_of_int ((if even (\<bar>?s\<bar> div ?L) then ?L - \<bar>?s\<bar> mod ?L else \<bar>?s\<bar> mod ?L) - sint limit)"
  proof (cases "even (\<bar>?s\<bar> div ?L)")
    case True
    have "o3 = word_of_int (?L - \<bar>?s\<bar> mod ?L)"
      unfolding o3_def ev e1 using True by (simp only: if_True)
    then have "(word_of_int (sint o3 - sint limit) :: 16 word) =
        word_of_int (?L - \<bar>?s\<bar> mod ?L - sint limit)"
      by (simp only: woi_sint_diff)
    then show ?thesis using True by (simp only: if_True)
  next
    case False
    have "o3 = o2"
      unfolding o3_def ev using False by (simp only: if_False)
    then have "(word_of_int (sint o3 - sint limit) :: 16 word) =
        word_of_int (\<bar>?s\<bar> mod ?L - sint limit)"
      by (simp only: e1)
    then show ?thesis using False by (simp only: if_False)
  qed
  then have "(word_of_int (sint o3 - sint limit) :: 16 word) =
      word_of_int (\<bar>?L - ?s mod (2 * ?L)\<bar> - sint limit)"
    by (simp only: triangle_abs [OF L])
  then show ?thesis unfolding W by simp
qed

text \<open>
  C6, as the claim states it, with period \<open>2 * limit\<close>: false at \<open>x = 5\<close>,
  \<open>limit = 10\<close>, \<open>k = 1\<close>.
\<close>

theorem WaveFolder_period_2limit_fails:
  "WaveFolder (5 + 2 * 10 * 1) 10 = Inr 5 \<and> WaveFolder 5 10 = Inr (- 5) \<and>
   WaveFolder (5 + 2 * 10 * 1) 10 \<noteq> WaveFolder 5 10"
  by (simp add: WaveFolder_def Let_def signed_modulo_int_def signed_divide_int_def)

text \<open>
  C6, amended. The fold is a triangle of period \<open>4 * limit\<close>: for \<open>limit > 0\<close> and
  inputs \<open>x\<close> and \<open>y = x + 4 * limit * k\<close> for which the first store
  \<^verbatim>\<open>signal += limit\<close> does not leave the \<^verbatim>\<open>int16_t\<close> range, the two folds agree.
\<close>

theorem WaveFolder_period_4limit:
  assumes "0 < sint limit"
    and "- 32768 \<le> sint x + sint limit" and "sint x + sint limit < 32768"
    and "sint y = sint x + 4 * sint limit * k"
    and "- 32768 \<le> sint y + sint limit" and "sint y + sint limit < 32768"
  shows "WaveFolder y limit = WaveFolder x limit"
proof -
  have "sint y + sint limit = (sint x + sint limit) + k * (4 * sint limit)"
    unfolding assms(4) by simp
  then have m: "(sint y + sint limit) mod (4 * sint limit) = (sint x + sint limit) mod (4 * sint limit)"
    by (simp only: mod_mult_self1)
  show ?thesis
    unfolding WaveFolder_closed [OF assms(1,2,3)] WaveFolder_closed [OF assms(1,5,6)] m by (rule refl)
qed

text \<open>C6 amended, at \<open>x = 5\<close>, \<open>limit = 10\<close>, \<open>k = 1\<close>.\<close>

theorem WaveFolder_period_4limit_witness:
  "0 < sint (10 :: 16 word) \<and> - 32768 \<le> sint (5 :: 16 word) + sint (10 :: 16 word) \<and>
   sint (5 :: 16 word) + sint (10 :: 16 word) < 32768 \<and>
   sint (45 :: 16 word) = sint (5 :: 16 word) + 4 * sint (10 :: 16 word) * 1 \<and>
   - 32768 \<le> sint (45 :: 16 word) + sint (10 :: 16 word) \<and>
   sint (45 :: 16 word) + sint (10 :: 16 word) < 32768 \<and>
   WaveFolder 45 10 = WaveFolder 5 10"
proof -
  have h: "0 < sint (10 :: 16 word)" "- 32768 \<le> sint (5 :: 16 word) + sint (10 :: 16 word)"
    "sint (5 :: 16 word) + sint (10 :: 16 word) < 32768"
    "sint (45 :: 16 word) = sint (5 :: 16 word) + 4 * sint (10 :: 16 word) * 1"
    "- 32768 \<le> sint (45 :: 16 word) + sint (10 :: 16 word)"
    "sint (45 :: 16 word) + sint (10 :: 16 word) < 32768"
    by simp_all
  show ?thesis
    using h WaveFolder_period_4limit [OF h] by simp
qed

section \<open>The interpolated folder\<close>

lemma fold_dx_eq: "fold_dx = 128"
  by (simp add: fold_dx_def NOISE_VALUE_MAX_def FOLDCURVE_N_def signed_divide_int_def)

lemma FOLDCURVE_length: "length FOLDCURVE = 64"
  by (simp add: FOLDCURVE_def)

lemma FOLDCURVE_bound: "\<forall>v \<in> set FOLDCURVE. \<bar>v\<bar> \<le> 2047"
  by (simp add: FOLDCURVE_def)

lemma FOLDCURVE_nth_bound: "i < 64 \<Longrightarrow> \<bar>FOLDCURVE ! i\<bar> \<le> 2047"
proof -
  assume "i < 64"
  then have "FOLDCURVE ! i \<in> set FOLDCURVE" by (simp add: FOLDCURVE_length)
  with FOLDCURVE_bound show ?thesis by (rule bspec)
qed

lemma FOLDCURVE_tail: "FOLDCURVE ! 62 = 0" "FOLDCURVE ! 63 = 0"
  by (simp_all add: FOLDCURVE_def)

lemma fold_bucket_le: "fold_bucket k \<le> 62"
  by (simp add: fold_bucket_def Let_def FOLDCURVE_N_def nat_le_iff del: nat_uint_eq)

lemma fold_bucket_small: "0 \<le> k \<Longrightarrow> k < 63 \<Longrightarrow> fold_bucket k = nat k"
  by (simp add: fold_bucket_def Let_def FOLDCURVE_N_def uint_word_of_int take_bit_int_eq_self del: nat_uint_eq)

lemma blend_bound:
  fixes a b c w1 w2 :: int
  assumes "0 \<le> w1" "0 \<le> w2" "\<bar>a\<bar> \<le> c" "\<bar>b\<bar> \<le> c"
  shows "\<bar>a * w1 + b * w2\<bar> \<le> c * (w1 + w2)"
proof -
  have "\<bar>a * w1 + b * w2\<bar> \<le> \<bar>a * w1\<bar> + \<bar>b * w2\<bar>" by (rule abs_triangle_ineq)
  also have "\<dots> = \<bar>a\<bar> * w1 + \<bar>b\<bar> * w2" using assms(1,2) by (simp add: abs_mult)
  also have "\<dots> \<le> c * w1 + c * w2"
    using assms by (intro add_mono mult_right_mono)
  finally show ?thesis by (simp add: algebra_simps)
qed

text \<open>The interpolation sum of the non-negative branch, for a magnitude.\<close>

lemma InterpolationFolder_nonneg:
  "0 \<le> sint x \<Longrightarrow> InterpolationFolder x = word_of_int (fold_sum (sint x) sdiv fold_dx)"
  by (simp add: InterpolationFolder_def fold_sum_def Let_def)

lemma InterpolationFolder_neg:
  assumes "sint x < 0"
  shows "InterpolationFolder x = word_of_int (- (fold_sum (- sint x) sdiv fold_dx))"
proof -
  let ?m = "- sint x"
  let ?i = "fold_bucket (?m sdiv fold_dx)"
  have "- 1 * FOLDCURVE ! ?i * ((int ?i + 1) * fold_dx + sint x) + FOLDCURVE ! (?i + 1) * (sint x + int ?i * fold_dx)
      = - fold_sum ?m"
    by (simp add: fold_sum_def Let_def algebra_simps)
  then show ?thesis
    using assms by (simp add: InterpolationFolder_def Let_def sdiv_neg)
qed


lemma fold_sum_bound:
  assumes "0 \<le> m" "m < 32768"
  shows "\<bar>fold_sum m\<bar> \<le> 2047 * 128"
proof -
  let ?q = "m sdiv fold_dx"
  have q: "?q = m div 128" using assms(1) by (simp add: fold_dx_eq signed_divide_int_def sgn_if)
  then have qb: "0 \<le> ?q" "?q < 256" using assms by simp_all
  let ?i = "fold_bucket ?q"
  show ?thesis
  proof (cases "?q < 62")
    case True
    then have i: "?i = nat ?q" using qb by (simp add: fold_bucket_small)
    then have ii: "int ?i = m div 128" using qb q by simp
    have w1: "0 \<le> (int ?i + 1) * 128 - m" and w2: "0 \<le> m - int ?i * 128"
      unfolding ii by (simp_all add: algebra_simps)
    have i62: "?i < 62" using True i qb by simp
    have b1: "\<bar>FOLDCURVE ! ?i\<bar> \<le> 2047"
      by (rule FOLDCURVE_nth_bound) (use i62 in simp)
    have b2: "\<bar>FOLDCURVE ! (?i + 1)\<bar> \<le> 2047"
      by (rule FOLDCURVE_nth_bound) (use i62 in simp)
    have "\<bar>FOLDCURVE ! ?i * ((int ?i + 1) * 128 - m) + FOLDCURVE ! (?i + 1) * (m - int ?i * 128)\<bar>
        \<le> 2047 * (((int ?i + 1) * 128 - m) + (m - int ?i * 128))"
      using w1 w2 b1 b2 by (rule blend_bound)
    then show ?thesis by (simp add: fold_sum_def Let_def fold_dx_eq algebra_simps)
  next
    case False
    then have "?i = 62"
      using qb by (auto simp: fold_bucket_def Let_def FOLDCURVE_N_def uint_word_of_int take_bit_int_eq_self simp del: nat_uint_eq)
    then show ?thesis by (simp add: fold_sum_def Let_def FOLDCURVE_tail)
  qed
qed


lemma sdiv_128_bound:
  fixes a c :: int
  assumes "\<bar>a\<bar> \<le> c * 128"
  shows "\<bar>a sdiv 128\<bar> \<le> c"
proof -
  have "\<bar>a sdiv 128\<bar> = \<bar>a\<bar> div 128"
    by (simp add: signed_divide_int_def abs_mult sgn_if)
  also have "\<dots> \<le> (c * 128) div 128" using assms by (rule zdiv_mono1) simp
  finally show ?thesis by simp
qed

lemma fold_value_bound:
  assumes "0 \<le> m" "m < 32768"
  shows "\<bar>fold_sum m sdiv fold_dx\<bar> \<le> 2047"
  unfolding fold_dx_eq using fold_sum_bound [OF assms] by (intro sdiv_128_bound) simp

lemma fold_sum_0: "fold_sum 0 = 0"
  by (simp add: fold_sum_def Let_def fold_bucket_small FOLDCURVE_def)

lemma sint_InterpolationFolder:
  "sint (InterpolationFolder x) =
    (if 0 \<le> sint x then fold_sum (sint x) sdiv fold_dx
     else if sint x = - 32768 then sint (InterpolationFolder x)
     else - (fold_sum (- sint x) sdiv fold_dx))"
proof (cases "0 \<le> sint x")
  case True
  have "sint x < 32768" using sint_lt [of x] by simp
  then have "\<bar>fold_sum (sint x) sdiv fold_dx\<bar> \<le> 2047" using True by (intro fold_value_bound)
  then have "sint (word_of_int (fold_sum (sint x) sdiv fold_dx) :: 16 word) = fold_sum (sint x) sdiv fold_dx"
    by (intro sint_i16) simp_all
  then show ?thesis using True by (simp add: InterpolationFolder_nonneg)
next
  case False
  show ?thesis
  proof (cases "sint x = - 32768")
    case True
    then show ?thesis by simp
  next
    case ne: False
    have "- 32768 \<le> sint x" using sint_ge [of x] by simp
    then have "\<bar>fold_sum (- sint x) sdiv fold_dx\<bar> \<le> 2047" using False ne by (intro fold_value_bound) simp_all
    then have "sint (word_of_int (- (fold_sum (- sint x) sdiv fold_dx)) :: 16 word) = - (fold_sum (- sint x) sdiv fold_dx)"
      by (intro sint_i16) simp_all
    then show ?thesis using False ne InterpolationFolder_neg [of x] by (simp del: of_int_minus)
  qed
qed

text \<open>
  C7. For every input but \<open>-32768\<close> (whose negation is no \<^verbatim>\<open>int16_t\<close>) the folder is
  odd, and at every bucket boundary \<open>i * dx\<close> with \<open>i \<le> FOLDCURVE_N - 2\<close> it returns
  the table entry \<open>FOLDCURVE[i]\<close> exactly.
\<close>

theorem InterpolationFolder_odd_and_table:
  assumes "- 32768 < sint x" and "i \<le> 62"
  shows "sint (InterpolationFolder (- x)) = - sint (InterpolationFolder x) \<and>
         sint (InterpolationFolder (word_of_int (int i * fold_dx))) = FOLDCURVE ! i"
proof
  have n: "sint (- x) = - sint x" using assms(1) by (rule sint_neg_i16)
  have ub: "sint x < 32768" using sint_lt [of x] by simp
  consider "sint x = 0" | "0 < sint x" | "sint x < 0" by linarith
  then show "sint (InterpolationFolder (- x)) = - sint (InterpolationFolder x)"
  proof cases
    case 1
    then show ?thesis
      using n sint_InterpolationFolder [of x] sint_InterpolationFolder [of "- x"]
      by (simp add: fold_sum_0)
  next
    case 2
    then show ?thesis
      using n ub sint_InterpolationFolder [of x] sint_InterpolationFolder [of "- x"]
      by simp
  next
    case 3
    then show ?thesis
      using n assms(1) sint_InterpolationFolder [of x] sint_InterpolationFolder [of "- x"]
      by simp
  qed
next
  let ?x = "word_of_int (int i * fold_dx) :: 16 word"
  have sx: "sint ?x = int i * 128"
    unfolding fold_dx_eq using assms(2) by (intro sint_i16) simp_all
  have q: "(int i * 128) sdiv 128 = int i"
    by (simp add: signed_divide_int_def sgn_if)
  have b: "fold_bucket (int i) = i" using assms(2) by (simp add: fold_bucket_small)
  have fs: "fold_sum (int i * 128) = FOLDCURVE ! i * 128"
    unfolding fold_sum_def Let_def fold_dx_eq q b by simp
  have "(FOLDCURVE ! i * 128) sdiv fold_dx = FOLDCURVE ! i"
    by (simp add: fold_dx_eq signed_divide_int_def sgn_if abs_mult)
  then show "sint (InterpolationFolder ?x) = FOLDCURVE ! i"
    using sint_InterpolationFolder [of ?x] sx fs by simp
qed

text \<open>C7, at \<open>x = 100\<close> and the bucket boundary \<open>i = 2\<close>.\<close>

theorem InterpolationFolder_odd_and_table_witness:
  "- 32768 < sint (100 :: 16 word) \<and> (2::nat) \<le> 62 \<and>
   sint (InterpolationFolder (- 100)) = - sint (InterpolationFolder 100) \<and>
   sint (InterpolationFolder (word_of_int (int 2 * fold_dx))) = FOLDCURVE ! 2 \<and>
   FOLDCURVE ! 2 = 796"
proof -
  have h: "- 32768 < sint (100 :: 16 word)" "(2::nat) \<le> 62" by simp_all
  have "FOLDCURVE ! 2 = 796" by (simp add: FOLDCURVE_def)
  then show ?thesis
    using h InterpolationFolder_odd_and_table [OF h] by simp
qed

section \<open>The table lookups\<close>

lemma FREQ_SCALE_length: "length FREQ_SCALE = 64"
  by (simp add: FREQ_SCALE_def)

lemma CFREQ_SCALE_length: "length CFREQ_SCALE = 112"
  by (simp add: CFREQ_SCALE_def)

lemma FREQ_SCALE_sorted: "sorted FREQ_SCALE"
  unfolding FREQ_SCALE_def sorted2 sorted1 by simp

lemma CFREQ_SCALE_sorted: "sorted CFREQ_SCALE"
  unfolding CFREQ_SCALE_def sorted2 sorted1 by simp

lemma table_at_mono:
  assumes "sorted xs" "i \<le> j" "j < length xs"
  shows "\<exists>a b. table_at xs i = Some a \<and> table_at xs j = Some b \<and> a \<le> b"
  using assms by (simp add: table_at_def sorted_nth_mono)

lemma Parameter2Clk_mono:
  assumes "p \<le> q"
  shows "\<exists>a b. Parameter2Clk p = Some a \<and> Parameter2Clk q = Some b \<and> a \<le> b"
proof -
  have "unat (if p < 64 then p else 63) \<le> unat (if q < 64 then q else 63)"
    using assms by (auto simp: word_le_nat_alt word_less_nat_alt)
  moreover have "unat (if q < 64 then q else 63) < length FREQ_SCALE"
    by (auto simp: word_less_nat_alt FREQ_SCALE_length)
  ultimately show ?thesis
    unfolding Parameter2Clk_def using FREQ_SCALE_sorted by (intro table_at_mono)
qed

lemma Parameter2Clk_wf_mono:
  assumes "p \<le> q"
  shows "\<exists>a b. Parameter2Clk_wf p = Some a \<and> Parameter2Clk_wf q = Some b \<and> a \<le> b"
proof -
  have "unat (if p < 112 then p else 111) \<le> unat (if q < 112 then q else 111)"
    using assms by (auto simp: word_le_nat_alt word_less_nat_alt)
  moreover have "unat (if q < 112 then q else 111) < length CFREQ_SCALE"
    by (auto simp: word_less_nat_alt CFREQ_SCALE_length)
  ultimately show ?thesis
    unfolding Parameter2Clk_wf_def using CFREQ_SCALE_sorted by (intro table_at_mono)
qed

lemma Parameter2Frequency_wf_mono:
  assumes "p \<le> q"
  shows "\<exists>a b. Parameter2Frequency_wf p = Some a \<and> Parameter2Frequency_wf q = Some b \<and> a \<le> b"
proof -
  have "unat (if p > 75 then 75 else p) \<le> unat (if q > 75 then 75 else q)"
    using assms by (auto simp: word_le_nat_alt word_less_nat_alt)
  moreover have "unat (if q > 75 then 75 else q) < length CFREQ_SCALE"
    by (auto simp: word_less_nat_alt CFREQ_SCALE_length)
  ultimately show ?thesis
    unfolding Parameter2Frequency_wf_def CFREQ_SCALE_IDX_C7_def using CFREQ_SCALE_sorted by (intro table_at_mono)
qed

lemma FREQ_SCALE_last: "table_at FREQ_SCALE 63 = Some (last FREQ_SCALE)"
  by (simp add: table_at_def FREQ_SCALE_def)

lemma CFREQ_SCALE_last: "table_at CFREQ_SCALE 111 = Some (last CFREQ_SCALE)"
  by (simp add: table_at_def CFREQ_SCALE_def)

lemma CFREQ_SCALE_C7: "table_at CFREQ_SCALE 75 = Some (CFREQ_SCALE ! 75)"
  by (simp add: table_at_def CFREQ_SCALE_length)

lemma Parameter2Clk_clamp:
  assumes "63 \<le> q"
  shows "Parameter2Clk q = Some (last FREQ_SCALE)"
proof -
  have "(if q < 64 then q else 63) = 63"
    using assms by (auto simp: word_le_nat_alt word_less_nat_alt intro: word_unat_eq_iff [THEN iffD2])
  then show ?thesis by (simp add: Parameter2Clk_def FREQ_SCALE_last)
qed

lemma Parameter2Clk_wf_clamp:
  assumes "111 \<le> q"
  shows "Parameter2Clk_wf q = Some (last CFREQ_SCALE)"
proof -
  have "(if q < 112 then q else 111) = 111"
    using assms by (auto simp: word_le_nat_alt word_less_nat_alt intro: word_unat_eq_iff [THEN iffD2])
  then show ?thesis by (simp add: Parameter2Clk_wf_def CFREQ_SCALE_last)
qed

lemma Parameter2Frequency_wf_clamp:
  assumes "75 \<le> q"
  shows "Parameter2Frequency_wf q = Some (CFREQ_SCALE ! 75)"
proof -
  have h: "(if q > 75 then 75 else q) = 75"
    using assms by auto
  show ?thesis
    unfolding Parameter2Frequency_wf_def CFREQ_SCALE_IDX_C7_def h using CFREQ_SCALE_C7 by simp
qed

text \<open>
  C8, as the claim states it, is false for \<^verbatim>\<open>Parameter2Frequency\<close>: at its maximum
  parameter \<open>CFREQ_SCALE_IDX_C7 = 75\<close> and beyond (here \<open>NL_MAX_PARAM = 111\<close>) it returns
  entry 75 of the table, 209300, and not the last entry, 1666667.
\<close>

theorem Parameter2Frequency_wf_not_last_entry:
  "Parameter2Frequency_wf CFREQ_SCALE_IDX_C7 = Some 209300 \<and>
   Parameter2Frequency_wf (word_of_int NL_MAX_PARAM) = Some 209300 \<and>
   last CFREQ_SCALE = 1666667 \<and>
   Parameter2Frequency_wf (word_of_int NL_MAX_PARAM) \<noteq> Some (last CFREQ_SCALE)"
  by (simp add: Parameter2Frequency_wf_def CFREQ_SCALE_IDX_C7_def NL_MAX_PARAM_def table_at_def
      CFREQ_SCALE_def)

text \<open>
  C8, amended. The three lookups are monotonically non-decreasing and never read
  outside their table; \<^verbatim>\<open>Parameter2Clk\<close> clamps every index from the maximum parameter
  on to the last entry of its table, and \<^verbatim>\<open>Parameter2Frequency\<close> clamps every index
  from \<open>CFREQ_SCALE_IDX_C7\<close> on to the entry at \<open>CFREQ_SCALE_IDX_C7\<close>.
\<close>

theorem table_lookups_monotone_and_clamped:
  assumes "p \<le> q"
  shows "(\<exists>a b. Parameter2Clk p = Some a \<and> Parameter2Clk q = Some b \<and> a \<le> b) \<and>
     (\<exists>a b. Parameter2Clk_wf p = Some a \<and> Parameter2Clk_wf q = Some b \<and> a \<le> b) \<and>
     (\<exists>a b. Parameter2Frequency_wf p = Some a \<and> Parameter2Frequency_wf q = Some b \<and> a \<le> b) \<and>
     (word_of_int BNC_MAX_PARAM \<le> q \<longrightarrow> Parameter2Clk q = Some (last FREQ_SCALE)) \<and>
     (word_of_int NL_MAX_PARAM \<le> q \<longrightarrow> Parameter2Clk_wf q = Some (last CFREQ_SCALE)) \<and>
     (CFREQ_SCALE_IDX_C7 \<le> q \<longrightarrow>
        Parameter2Frequency_wf q = Some (CFREQ_SCALE ! unat CFREQ_SCALE_IDX_C7))"
  using Parameter2Clk_mono [OF assms] Parameter2Clk_wf_mono [OF assms]
    Parameter2Frequency_wf_mono [OF assms]
    Parameter2Clk_clamp [of q] Parameter2Clk_wf_clamp [of q] Parameter2Frequency_wf_clamp [of q]
  by (simp add: BNC_MAX_PARAM_def NL_MAX_PARAM_def CFREQ_SCALE_IDX_C7_def)

text \<open>C8 amended, at \<open>p = 60\<close> and \<open>q = 200\<close>.\<close>

theorem table_lookups_witness:
  "(60 :: 8 word) \<le> 200 \<and>
   Parameter2Clk 60 = Some 12639 \<and> Parameter2Clk 200 = Some 16667 \<and>
   Parameter2Clk_wf 60 = Some 88000 \<and> Parameter2Clk_wf 200 = Some 1666667 \<and>
   Parameter2Frequency_wf 60 = Some 88000 \<and> Parameter2Frequency_wf 200 = Some 209300"
proof -
  have h: "(60 :: 8 word) \<le> 200" by simp
  have e: "Parameter2Clk 60 = Some 12639" "Parameter2Clk_wf 60 = Some 88000"
    "Parameter2Frequency_wf 60 = Some 88000"
    "last FREQ_SCALE = 16667" "last CFREQ_SCALE = 1666667" "CFREQ_SCALE ! 75 = 209300"
    by (simp_all add: Parameter2Clk_def Parameter2Clk_wf_def Parameter2Frequency_wf_def
        CFREQ_SCALE_IDX_C7_def table_at_def FREQ_SCALE_def CFREQ_SCALE_def)
  show ?thesis
    using h e table_lookups_monotone_and_clamped [OF h]
    by (simp add: BNC_MAX_PARAM_def NL_MAX_PARAM_def CFREQ_SCALE_IDX_C7_def)
qed

section \<open>The filter mode Off\<close>

text \<open>
  C9, as the claim states it, is false in its last part: with clock parameter 63, White
  mode and filter mode Off, a tick whose gate is high emits half of the held sample
  (here 100, drawn on the tick before), not half of the fresh draw (here 7).
\<close>

theorem held_output_is_not_fresh_draw:
  "map_option (\<lambda>s. (noise_mode s, state_clock s, fs_mode (state_filter s 0)))
     (white_off_state ([] :: int list))
     = Some (NOISE_MODE_WHITE, 63, FILTER_MODE_OFF) \<and>
   draws_ok (tick_held 0 7) \<and> Gate (tick_held 0 7) 0 \<and>
   map_option (\<lambda>s. map_sum id (\<lambda>r. map (\<lambda>evs. emitted evs 0) (snd r))
       (run_ticks probe [tick_free 0 100, tick_held 0 7] s)) (white_off_state [])
     = Some (Inr [[50], [50]]) \<and>
   [rnd_white (tick_held 0 7) sdiv 2] = [3]"
  by (simp add: white_off_state_def ui_defs tick_defs emitted_def probe_def Proportion_spec_def
      signed_divide_int_def)

text \<open>
  The two-channel file. With the filter mode of a channel Off, a tick emits on that
  channel half of the sample of the channel; other collaborators, other filter states
  and other parameters \<open>f\<close> and \<open>q\<close> (the modes kept) give a tick that returns as well and
  emits the same.
\<close>

lemma filter_off_two_channel:
  assumes "Controller env inp s = Inr (s', evs)" and "ch < 2"
    and "fs_mode (state_filter s ch) = FILTER_MODE_OFF"
  shows "emitted evs ch = [sint (ch_noise s' ch) sdiv 2] \<and>
     ch_noise s' ch = (if Gate inp ch then ch_noise s ch else noise s') \<and>
     (\<forall>env2 fl sf t evs2.
        (\<forall>c. fs_mode (sf c) = fs_mode (state_filter s c)) \<and>
        Controller env2 inp (s\<lparr>filter_sv := fl, state_filter := sf\<rparr>) = Inr (t, evs2)
        \<longrightarrow> emitted evs2 ch = emitted evs ch) \<and>
     (\<forall>env2 fl sf.
        (\<forall>c. fs_mode (sf c) = fs_mode (state_filter s c))
        \<longrightarrow> (\<exists>t evs2. Controller env2 inp (s\<lparr>filter_sv := fl, state_filter := sf\<rparr>) = Inr (t, evs2))) \<and>
     (noise_mode s = NOISE_MODE_WHITE \<and> state_clock s = 63 \<and>
      (clk_dphi s = CLKSetCFreq FSAMPLE_CHZ \<or>
       Parameter2Clk (state_clock s) = Some hz \<and>
       clk_dphi s = CLKSetCFreq (word_of_int (uint hz * 100))) \<and>
      unat (clk_phi s) + unat (clk_dphi s) < 2 ^ 64 \<and> draws_ok inp \<and> \<not> Gate inp ch
      \<longrightarrow> emitted evs ch = [rnd_white inp sdiv 2])"
proof -
  from Controller_effect(4) [OF assms(1,2)] assms(3)
  have e: "emitted evs ch = [sint (ch_noise s' ch) sdiv 2]"
    by (auto simp: select_tap_def)
  have c: "ch_noise s' ch = (if Gate inp ch then ch_noise s ch else noise s')"
    using Controller_effect(1) [OF assms(1,2)] by simp
  from assms(1) obtain sn where n: "noise_step inp s = Inr sn" and ns: "noise s' = noise sn"
    using Controller_effect(5) [OF assms(1), of 0] by auto
  have ind: "emitted evs2 ch = emitted evs ch"
    if m: "\<forall>c. fs_mode (sf c) = fs_mode (state_filter s c)"
      and r: "Controller env2 inp (s\<lparr>filter_sv := fl, state_filter := sf\<rparr>) = Inr (t, evs2)"
    for env2 :: "'a collaborators" and fl sf t evs2
  proof -
    let ?s2 = "s\<lparr>filter_sv := fl, state_filter := sf\<rparr>"
    have off: "fs_mode (state_filter ?s2 ch) = FILTER_MODE_OFF" using m assms(3) by simp
    from Controller_effect(4) [OF r assms(2)] off
    have e2: "emitted evs2 ch = [sint (ch_noise t ch) sdiv 2]"
      by (auto simp: select_tap_def)
    from r obtain tn where n2: "noise_step inp ?s2 = Inr tn" and nt: "noise t = noise tn"
      using Controller_effect(5) [OF r, of 0] by auto
    have "tn = sn\<lparr>filter_sv := fl, state_filter := sf\<rparr>"
      using n n2 by (simp add: noise_step_filters)
    then have "noise t = noise s'" using nt ns by simp
    moreover have "ch_noise t ch = (if Gate inp ch then ch_noise ?s2 ch else noise t)"
      using Controller_effect(1) [OF r assms(2)] by simp
    ultimately have "ch_noise t ch = ch_noise s' ch" using c by simp
    then show ?thesis using e e2 by simp
  qed
  have tot: "\<exists>t evs2. Controller env2 inp (s\<lparr>filter_sv := fl, state_filter := sf\<rparr>) = Inr (t, evs2)"
    if "\<forall>c. fs_mode (sf c) = fs_mode (state_filter s c)"
    for env2 :: "'a collaborators" and fl sf
    using assms(1) that by (rule Controller_other_filters)
  have fresh: "emitted evs ch = [rnd_white inp sdiv 2]"
    if h: "noise_mode s = NOISE_MODE_WHITE \<and> state_clock s = 63 \<and>
      (clk_dphi s = CLKSetCFreq FSAMPLE_CHZ \<or>
       Parameter2Clk (state_clock s) = Some hz \<and>
       clk_dphi s = CLKSetCFreq (word_of_int (uint hz * 100))) \<and>
      unat (clk_phi s) + unat (clk_dphi s) < 2 ^ 64 \<and> draws_ok inp \<and> \<not> Gate inp ch"
  proof -
    from h have "clk_dphi s = CLKSetCFreq FSAMPLE_CHZ \<or>
        Parameter2Clk 63 = Some hz \<and> clk_dphi s = CLKSetCFreq (word_of_int (uint hz * 100))"
      by auto
    then have d: "65535 \<le> unat (clk_dphi s)"
    proof
      assume "clk_dphi s = CLKSetCFreq FSAMPLE_CHZ"
      then show ?thesis by (simp add: CLKSetCFreq_full)
    next
      assume a: "Parameter2Clk 63 = Some hz \<and> clk_dphi s = CLKSetCFreq (word_of_int (uint hz * 100))"
      then have hz: "hz = 16667" by (simp add: Parameter2Clk_def table_at_def FREQ_SCALE_def)
      have "clk_dphi s = 65536"
        using a unfolding hz by (simp add: CLKSetCFreq_def CLK_PHI_MAX_def FSAMPLE_CHZ_def)
      then show ?thesis by simp
    qed
    from h have "unat (clk_phi s) + unat (clk_dphi s) < 2 ^ 64" by blast
    then have "unat (clk_phi s) + unat (clk_dphi s) < 2 ^ LENGTH(64)" by simp
    then have "unat (clk_phi s + clk_dphi s) = unat (clk_phi s) + unat (clk_dphi s)"
      by (rule unat_add_lem [THEN iffD1])
    then have "65535 \<le> unat (clk_phi s + clk_dphi s)" using d by simp
    then have wr: "snd (clk_advance (clk_phi s) (clk_dphi s))"
      by (simp add: clk_advance_def Let_def CLK_PHI_MAX_def word_le_nat_alt)
    have nc: "noise_mode s \<noteq> NOISE_MODE_CRACKLE" and nb: "noise_mode s \<noteq> NOISE_MODE_BITFLIP"
      using h by (simp_all add: NOISE_MODE_WHITE_def NOISE_MODE_CRACKLE_def NOISE_MODE_BITFLIP_def)
    have "noise sn = white inp"
      using noise_step_clock(2) [OF nc n] wr nb by simp
    moreover have "sint (white inp) = rnd_white inp"
      using h by (intro white_range) (simp_all add: draws_ok_def)
    ultimately show ?thesis using e c ns h by simp
  qed
  show ?thesis using e c ind tot fresh by blast
qed

text \<open>The single-filter variant.\<close>

lemma Parameter2Frequency_wf_returns: "\<exists>fr. Parameter2Frequency_wf p = Some fr"
proof -
  have "unat (if p > CFREQ_SCALE_IDX_C7 then CFREQ_SCALE_IDX_C7 else p) \<le> 75"
    by (simp add: CFREQ_SCALE_IDX_C7_def word_le_nat_alt not_less)
  then have "unat (if p > CFREQ_SCALE_IDX_C7 then CFREQ_SCALE_IDX_C7 else p) < length CFREQ_SCALE"
    by (simp only: CFREQ_SCALE_length)
  then show ?thesis by (simp only: Parameter2Frequency_wf_def table_at_def if_True) blast
qed

lemma noise_step_wf_frame:
  assumes "noise_step_wf env max_cv inp cv s = Inr sn"
  shows "state_filter_wf sn = state_filter_wf s" and "filter_wf sn = filter_wf s"
    and "state_wavefolder sn = state_wavefolder s"
  using assms by (auto simp: noise_step_wf_def split: sum.splits prod.splits if_splits)

lemma noise_step_wf_filters:
  assumes "Proportion env2 = Proportion env"
  shows "noise_step_wf env2 max_cv inp cv (s\<lparr>filter_wf := fl, state_filter_wf := sf\<rparr>) =
    (case noise_step_wf env max_cv inp cv s of
       Inl e \<Rightarrow> Inl e
     | Inr sn \<Rightarrow> Inr (sn\<lparr>filter_wf := fl, state_filter_wf := sf\<rparr>))"
  by (simp add: noise_step_wf_def assms split: sum.splits prod.splits)

lemma noise_step_wf_white:
  assumes "noise_mode_wf s = NOISE_MODE_WHITE" and "snd (clk_advance (clk_phi_wf s) (clk_dphi_wf s))"
    and "noise_step_wf env max_cv inp cv s = Inr sn"
  shows "noise_wf sn = white inp"
  using assms
  by (auto simp: noise_step_wf_def NOISE_MODE_WHITE_def NOISE_MODE_CRACKLE_def NOISE_MODE_BITFLIP_def
      NOISE_MODE_LINEIN_def split: prod.splits)

lemma Controller_wf_noise_step:
  assumes "Controller_wf env max_cv inp cv s = Inr (s', evs)"
  shows "\<exists>sn. noise_step_wf env max_cv inp cv s = Inr sn"
  using assms by (auto simp: Controller_wf_def split: sum.splits)

lemma Controller_wf_off:
  assumes "noise_step_wf env max_cv inp cv s = Inr sn"
    and "fs_mode (state_filter_wf s) = FILTER_MODE_OFF"
  shows "\<exists>s' fr q. Controller_wf env max_cv inp cv s =
      Inr (s', [Feed 0 (sint (noise_wf sn)) fr q, Out 0 (sint (noise_wf sn) sdiv 2),
                Out 1 (sint (folded env (state_wavefolder s) (noise_wf sn)) sdiv 2)]) \<and>
      noise_wf s' = noise_wf sn"
proof -
  note fr = noise_step_wf_frame [OF assms(1)]
  obtain f where f: "Parameter2Frequency_wf (fs_f (state_filter_wf sn)) = Some f"
    using Parameter2Frequency_wf_returns by blast
  show ?thesis
    using assms f fr by (simp add: Controller_wf_def Let_def select_tap_def)
qed

lemma filter_off_single_filter:
  assumes "Controller_wf env max_cv inp cv s = Inr (s', evs)"
    and "fs_mode (state_filter_wf s) = FILTER_MODE_OFF"
  shows "emitted evs 0 = [sint (noise_wf s') sdiv 2]"
    and "emitted evs 1 = [sint (folded env (state_wavefolder s) (noise_wf s')) sdiv 2]"
    and "Proportion env2 = Proportion env \<and> fs_mode sf = fs_mode (state_filter_wf s) \<longrightarrow>
      (\<exists>t evs2. Controller_wf env2 max_cv inp cv (s\<lparr>filter_wf := fl, state_filter_wf := sf\<rparr>) = Inr (t, evs2) \<and>
         emitted evs2 0 = emitted evs 0 \<and> emitted evs2 1 = emitted evs 1)"
    and "noise_mode_wf s = NOISE_MODE_WHITE \<and> clk_dphi_wf s = CLKSetCFreq FSAMPLE_CHZ \<and>
      unat (clk_phi_wf s) + unat (clk_dphi_wf s) < 2 ^ 64 \<and> draws_ok inp
      \<longrightarrow> emitted evs 0 = [rnd_white inp sdiv 2]"
proof -
  obtain sn where n: "noise_step_wf env max_cv inp cv s = Inr sn"
    using Controller_wf_noise_step [OF assms(1)] by blast
  from Controller_wf_off [OF n assms(2)] obtain t0 fr q where
    c: "Controller_wf env max_cv inp cv s =
      Inr (t0, [Feed 0 (sint (noise_wf sn)) fr q, Out 0 (sint (noise_wf sn) sdiv 2),
                Out 1 (sint (folded env (state_wavefolder s) (noise_wf sn)) sdiv 2)])"
    and n0: "noise_wf t0 = noise_wf sn"
    by (elim exE conjE)
  from c assms(1) have ev: "evs = [Feed 0 (sint (noise_wf sn)) fr q, Out 0 (sint (noise_wf sn) sdiv 2),
      Out 1 (sint (folded env (state_wavefolder s) (noise_wf sn)) sdiv 2)]"
    and ns: "noise_wf s' = noise_wf sn"
    using n0 by simp_all
  show e0: "emitted evs 0 = [sint (noise_wf s') sdiv 2]"
    by (simp add: ev emitted_def ns)
  show e1: "emitted evs 1 = [sint (folded env (state_wavefolder s) (noise_wf s')) sdiv 2]"
    by (simp add: ev emitted_def ns)
  show "Proportion env2 = Proportion env \<and> fs_mode sf = fs_mode (state_filter_wf s) \<longrightarrow>
      (\<exists>t evs2. Controller_wf env2 max_cv inp cv (s\<lparr>filter_wf := fl, state_filter_wf := sf\<rparr>) = Inr (t, evs2) \<and>
         emitted evs2 0 = emitted evs 0 \<and> emitted evs2 1 = emitted evs 1)"
  proof
    assume h: "Proportion env2 = Proportion env \<and> fs_mode sf = fs_mode (state_filter_wf s)"
    let ?s2 = "s\<lparr>filter_wf := fl, state_filter_wf := sf\<rparr>"
    have n2: "noise_step_wf env2 max_cv inp cv ?s2 = Inr (sn\<lparr>filter_wf := fl, state_filter_wf := sf\<rparr>)"
      using h n by (simp add: noise_step_wf_filters [of env2 env])
    have off: "fs_mode (state_filter_wf ?s2) = FILTER_MODE_OFF" using h assms(2) by simp
    have fo: "folded env2 = folded env" using h by (simp add: folded_def fun_eq_iff)
    from Controller_wf_off [OF n2 off] obtain t fr2 q2 where
      "Controller_wf env2 max_cv inp cv ?s2 =
        Inr (t, [Feed 0 (sint (noise_wf sn)) fr2 q2, Out 0 (sint (noise_wf sn) sdiv 2),
                 Out 1 (sint (folded env (state_wavefolder s) (noise_wf sn)) sdiv 2)])"
      by (auto simp: fo)
    then show "\<exists>t evs2. Controller_wf env2 max_cv inp cv ?s2 = Inr (t, evs2) \<and>
         emitted evs2 0 = emitted evs 0 \<and> emitted evs2 1 = emitted evs 1"
      using e0 e1 ns by (simp add: emitted_def)
  qed
  show "noise_mode_wf s = NOISE_MODE_WHITE \<and> clk_dphi_wf s = CLKSetCFreq FSAMPLE_CHZ \<and>
      unat (clk_phi_wf s) + unat (clk_dphi_wf s) < 2 ^ 64 \<and> draws_ok inp
      \<longrightarrow> emitted evs 0 = [rnd_white inp sdiv 2]"
  proof
    assume h: "noise_mode_wf s = NOISE_MODE_WHITE \<and> clk_dphi_wf s = CLKSetCFreq FSAMPLE_CHZ \<and>
      unat (clk_phi_wf s) + unat (clk_dphi_wf s) < 2 ^ 64 \<and> draws_ok inp"
    then have d: "65535 \<le> unat (clk_dphi_wf s)" by (simp add: CLKSetCFreq_full)
    from h have "unat (clk_phi_wf s) + unat (clk_dphi_wf s) < 2 ^ 64" by blast
    then have "unat (clk_phi_wf s) + unat (clk_dphi_wf s) < 2 ^ LENGTH(64)" by simp
    then have "unat (clk_phi_wf s + clk_dphi_wf s) = unat (clk_phi_wf s) + unat (clk_dphi_wf s)"
      by (rule unat_add_lem [THEN iffD1])
    then have "65535 \<le> unat (clk_phi_wf s + clk_dphi_wf s)" using d by simp
    then have wr: "snd (clk_advance (clk_phi_wf s) (clk_dphi_wf s))"
      by (simp add: clk_advance_def Let_def CLK_PHI_MAX_def word_le_nat_alt)
    from h have w: "noise_mode_wf s = NOISE_MODE_WHITE" by blast
    have "noise_wf sn = white inp" using w wr n by (rule noise_step_wf_white)
    moreover have "sint (white inp) = rnd_white inp"
      using h by (intro white_range) (simp_all add: draws_ok_def)
    ultimately show "emitted evs 0 = [rnd_white inp sdiv 2]" using e0 ns by simp
  qed
qed

lemma white_off_state_wf_facts:
  "\<exists>s. white_off_state_wf = Some s \<and> noise_mode_wf s = NOISE_MODE_WHITE \<and>
     clk_dphi_wf s = CLKSetCFreq FSAMPLE_CHZ \<and> clk_phi_wf s = 0 \<and>
     fs_mode (state_filter_wf s) = FILTER_MODE_OFF"
  by (simp add: white_off_state_wf_def wf_defs constrain_def NOISE_MODE_WHITE_def
      NOISE_MODE_BITFLIP_def FILTER_MODE_OFF_def FILTER_MODE_LP_def)

text \<open>
  C9, amended. In the two-channel file, with the filter mode of a channel Off, a tick
  emits on that channel half of the sample of the channel, truncated towards zero; the
  sample is the held one when the gate is high and the noise value otherwise. Other
  collaborators, other filter states and other parameters \<open>f\<close> and \<open>q\<close> (the modes kept)
  give a tick that returns as well and emits the same. In particular, with clock
  parameter 63 (the increment as \<^verbatim>\<open>Start\<close> or the encoder set it), White mode, and the sum
  \<open>clk_phi + clk_dphi\<close> below \<open>2 ^ 64\<close>, when the gate of the channel reads false the
  emitted value is half of the fresh draw.

  In the single-filter variant, with the filter mode Off, a tick emits half of the noise
  value on output 0 and half of the folder's \<^verbatim>\<open>signal[1]\<close> of the noise value on output 1;
  another filter state and other parameters \<open>f\<close> and \<open>q\<close> (the same \<^verbatim>\<open>Proportion\<close>) give a
  tick that returns as well and emits the same. With the increment
  \<open>CLKSetCFreq FSAMPLE_CHZ\<close> that \<^verbatim>\<open>Start\<close> sets, White mode, and the sum
  \<open>clk_phi + clk_dphi\<close> below \<open>2 ^ 64\<close>, output 0 emits half of the fresh draw.
\<close>

theorem filter_off_emits_half_sample:
  "(Controller env inp s = Inr (s', evs) \<and> ch < 2 \<and> fs_mode (state_filter s ch) = FILTER_MODE_OFF \<longrightarrow>
     emitted evs ch = [sint (ch_noise s' ch) sdiv 2] \<and>
     ch_noise s' ch = (if Gate inp ch then ch_noise s ch else noise s') \<and>
     (\<forall>env2 fl sf t evs2.
        (\<forall>c. fs_mode (sf c) = fs_mode (state_filter s c)) \<and>
        Controller env2 inp (s\<lparr>filter_sv := fl, state_filter := sf\<rparr>) = Inr (t, evs2)
        \<longrightarrow> emitted evs2 ch = emitted evs ch) \<and>
     (\<forall>env2 fl sf.
        (\<forall>c. fs_mode (sf c) = fs_mode (state_filter s c))
        \<longrightarrow> (\<exists>t evs2. Controller env2 inp (s\<lparr>filter_sv := fl, state_filter := sf\<rparr>) = Inr (t, evs2))) \<and>
     (noise_mode s = NOISE_MODE_WHITE \<and> state_clock s = 63 \<and>
      (clk_dphi s = CLKSetCFreq FSAMPLE_CHZ \<or>
       Parameter2Clk (state_clock s) = Some hz \<and>
       clk_dphi s = CLKSetCFreq (word_of_int (uint hz * 100))) \<and>
      unat (clk_phi s) + unat (clk_dphi s) < 2 ^ 64 \<and> draws_ok inp \<and> \<not> Gate inp ch
      \<longrightarrow> emitted evs ch = [rnd_white inp sdiv 2])) \<and>
   (Controller_wf env1 max_cv inp1 cv u = Inr (u', evs1) \<and>
    fs_mode (state_filter_wf u) = FILTER_MODE_OFF \<longrightarrow>
     emitted evs1 0 = [sint (noise_wf u') sdiv 2] \<and>
     emitted evs1 1 = [sint (folded env1 (state_wavefolder u) (noise_wf u')) sdiv 2] \<and>
     (\<forall>env2 fl sf.
        Proportion env2 = Proportion env1 \<and> fs_mode sf = fs_mode (state_filter_wf u) \<longrightarrow>
        (\<exists>t evs2.
           Controller_wf env2 max_cv inp1 cv (u\<lparr>filter_wf := fl, state_filter_wf := sf\<rparr>) = Inr (t, evs2) \<and>
           emitted evs2 0 = emitted evs1 0 \<and> emitted evs2 1 = emitted evs1 1)) \<and>
     (noise_mode_wf u = NOISE_MODE_WHITE \<and> clk_dphi_wf u = CLKSetCFreq FSAMPLE_CHZ \<and>
      unat (clk_phi_wf u) + unat (clk_dphi_wf u) < 2 ^ 64 \<and> draws_ok inp1
      \<longrightarrow> emitted evs1 0 = [rnd_white inp1 sdiv 2]))"
proof (rule conjI; rule impI)
  assume h: "Controller env inp s = Inr (s', evs) \<and> ch < 2 \<and> fs_mode (state_filter s ch) = FILTER_MODE_OFF"
  then have a: "Controller env inp s = Inr (s', evs)" and b: "ch < 2"
    and c: "fs_mode (state_filter s ch) = FILTER_MODE_OFF" by blast+
  show "emitted evs ch = [sint (ch_noise s' ch) sdiv 2] \<and>
     ch_noise s' ch = (if Gate inp ch then ch_noise s ch else noise s') \<and>
     (\<forall>env2 fl sf t evs2.
        (\<forall>c. fs_mode (sf c) = fs_mode (state_filter s c)) \<and>
        Controller env2 inp (s\<lparr>filter_sv := fl, state_filter := sf\<rparr>) = Inr (t, evs2)
        \<longrightarrow> emitted evs2 ch = emitted evs ch) \<and>
     (\<forall>env2 fl sf.
        (\<forall>c. fs_mode (sf c) = fs_mode (state_filter s c))
        \<longrightarrow> (\<exists>t evs2. Controller env2 inp (s\<lparr>filter_sv := fl, state_filter := sf\<rparr>) = Inr (t, evs2))) \<and>
     (noise_mode s = NOISE_MODE_WHITE \<and> state_clock s = 63 \<and>
      (clk_dphi s = CLKSetCFreq FSAMPLE_CHZ \<or>
       Parameter2Clk (state_clock s) = Some hz \<and>
       clk_dphi s = CLKSetCFreq (word_of_int (uint hz * 100))) \<and>
      unat (clk_phi s) + unat (clk_dphi s) < 2 ^ 64 \<and> draws_ok inp \<and> \<not> Gate inp ch
      \<longrightarrow> emitted evs ch = [rnd_white inp sdiv 2])"
    by (rule filter_off_two_channel [OF a b c])
next
  assume h: "Controller_wf env1 max_cv inp1 cv u = Inr (u', evs1) \<and>
    fs_mode (state_filter_wf u) = FILTER_MODE_OFF"
  then have a: "Controller_wf env1 max_cv inp1 cv u = Inr (u', evs1)"
    and c: "fs_mode (state_filter_wf u) = FILTER_MODE_OFF" by blast+
  note r = filter_off_single_filter [OF a c]
  show "emitted evs1 0 = [sint (noise_wf u') sdiv 2] \<and>
     emitted evs1 1 = [sint (folded env1 (state_wavefolder u) (noise_wf u')) sdiv 2] \<and>
     (\<forall>env2 fl sf.
        Proportion env2 = Proportion env1 \<and> fs_mode sf = fs_mode (state_filter_wf u) \<longrightarrow>
        (\<exists>t evs2.
           Controller_wf env2 max_cv inp1 cv (u\<lparr>filter_wf := fl, state_filter_wf := sf\<rparr>) = Inr (t, evs2) \<and>
           emitted evs2 0 = emitted evs1 0 \<and> emitted evs2 1 = emitted evs1 1)) \<and>
     (noise_mode_wf u = NOISE_MODE_WHITE \<and> clk_dphi_wf u = CLKSetCFreq FSAMPLE_CHZ \<and>
      unat (clk_phi_wf u) + unat (clk_dphi_wf u) < 2 ^ 64 \<and> draws_ok inp1
      \<longrightarrow> emitted evs1 0 = [rnd_white inp1 sdiv 2])"
    using r(1) r(2) r(3) r(4) by (intro conjI allI)
qed

text \<open>
  C9 amended, at the state \<open>white_off_state\<close> with the gates low and the draw 100, and at
  the state \<open>white_off_state_wf\<close> of the single-filter variant with the gates high.
\<close>

theorem filter_off_emits_half_sample_witness:
  "map_option (\<lambda>s. fs_mode (state_filter s 0) = FILTER_MODE_OFF \<and> noise_mode s = NOISE_MODE_WHITE \<and>
        state_clock s = 63 \<and> Parameter2Clk (state_clock s) = Some 16667 \<and>
        clk_dphi s = CLKSetCFreq (word_of_int (uint (16667 :: 16 word) * 100)) \<and>
        unat (clk_phi s) + unat (clk_dphi s) < 2 ^ 64)
     (white_off_state ([] :: int list)) = Some True \<and>
   (0::nat) < 2 \<and> draws_ok (tick_free 0 100) \<and> \<not> Gate (tick_free 0 100) 0 \<and>
   map_option (\<lambda>s. map_sum id (\<lambda>r. emitted (snd r) 0) (Controller probe (tick_free 0 100) s))
     (white_off_state []) = Some (Inr [rnd_white (tick_free 0 100) sdiv 2]) \<and>
   map_option (\<lambda>s. fs_mode (state_filter_wf s) = FILTER_MODE_OFF \<and> noise_mode_wf s = NOISE_MODE_WHITE \<and>
        clk_dphi_wf s = CLKSetCFreq FSAMPLE_CHZ \<and>
        unat (clk_phi_wf s) + unat (clk_dphi_wf s) < 2 ^ 64)
     white_off_state_wf = Some True \<and>
   draws_ok (tick_held 0 100) \<and>
   map_option (\<lambda>s. map_sum id (\<lambda>r. emitted (snd r) 0) (Controller_wf probe 7680 (tick_held 0 100) 0 s))
     white_off_state_wf = Some (Inr [rnd_white (tick_held 0 100) sdiv 2])"
proof -
  obtain s where st: "white_off_state [] = Some (s :: int list NoiseLake)"
    and f: "noise_mode s = NOISE_MODE_WHITE" "clk_dphi s = 65536" "clk_phi s = 0"
      "fs_mode (state_filter s 0) = FILTER_MODE_OFF" "fs_mode (state_filter s (Suc 0)) = FILTER_MODE_BP"
      "state_clock s = 63"
    using white_off_state_facts [of "[]"] by blast
  obtain u where ut: "white_off_state_wf = Some u"
    and w: "noise_mode_wf u = NOISE_MODE_WHITE" "clk_dphi_wf u = CLKSetCFreq FSAMPLE_CHZ"
      "clk_phi_wf u = 0" "fs_mode (state_filter_wf u) = FILTER_MODE_OFF"
    using white_off_state_wf_facts by blast
  have "\<exists>s' evs. Controller probe (tick_free 0 100) s = Inr (s', evs)"
    by (rule Controller_returns)
      (use f in \<open>simp_all add: FILTER_MODE_OFF_def FILTER_MODE_BP_def NOISE_MODE_WHITE_def NOISE_MODE_CRACKLE_def\<close>)
  then obtain s' evs where a: "Controller probe (tick_free 0 100) s = Inr (s', evs)" by blast
  have "\<exists>sn. noise_step_wf probe 7680 (tick_held 0 100) 0 u = Inr sn"
    using w(1) by (simp add: noise_step_wf_def NOISE_MODE_WHITE_def NOISE_MODE_CRACKLE_def split: prod.split)
  then obtain sn where "noise_step_wf probe 7680 (tick_held 0 100) 0 u = Inr sn" by blast
  from Controller_wf_off [OF this w(4)] obtain u' evs1 where
    a1: "Controller_wf probe 7680 (tick_held 0 100) 0 u = Inr (u', evs1)" by blast
  have c: "(0::nat) < 2" by simp
  have p: "Parameter2Clk (state_clock s) = Some 16667"
    by (simp add: f Parameter2Clk_def table_at_def FREQ_SCALE_def)
  have d: "clk_dphi s = CLKSetCFreq (word_of_int (uint (16667 :: 16 word) * 100))"
    by (simp add: f CLKSetCFreq_def CLK_PHI_MAX_def FSAMPLE_CHZ_def)
  have o: "unat (clk_phi s) + unat (clk_dphi s) < 2 ^ 64" by (simp add: f)
  have o1: "unat (clk_phi_wf u) + unat (clk_dphi_wf u) < 2 ^ 64" by (simp add: w CLKSetCFreq_full)
  have g: "draws_ok (tick_free 0 100)" "\<not> Gate (tick_free 0 100) 0" "draws_ok (tick_held 0 100)"
    by (simp_all add: tick_defs CLK_PHI_MAX_def)
  note T = filter_off_emits_half_sample [where env = probe and inp = "tick_free 0 100" and s = s
      and s' = s' and evs = evs and ch = 0 and hz = 16667 and ?env1.0 = probe and max_cv = 7680
      and ?inp1.0 = "tick_held 0 100" and cv = 0 and u = u and u' = u' and ?evs1.0 = evs1]
  from T a c f(4) f(1) f(6) p d o g
  have r: "emitted evs 0 = [rnd_white (tick_free 0 100) sdiv 2]" by blast
  from T a1 w(4) w(1) w(2) o1 g(3)
  have r1: "emitted evs1 0 = [rnd_white (tick_held 0 100) sdiv 2]" by blast
  show ?thesis
    unfolding st ut using a a1 r r1 c p d o o1 g f w by simp
qed

section \<open>Feeding the filters\<close>



end
